theory Spec2Isabelle
  imports Complex_Main "HOL-Library.AList"
begin

section \<open>Server side: connections, jobs and messages\<close>

text \<open>
  An \<open>AuthenticatedWebSocket\<close> is a JavaScript object; subscriber sets hold references
  to such objects and compare them by identity. A reference is a number, and the heap
  maps a reference to the fields the service reads. \<open>sendThrows\<close> stands for the
  behaviour of the transport library's \<open>ws.send\<close>, which is outside the repository:
  it says whether a call of \<open>send\<close> on this connection raises, and with what.
  A thrown value is known by its \<open>message\<close> property, absent for a value without one.
\<close>

type_synonym ws_ref = nat

type_synonym thrown = "string option"

datatype ready_state = CONNECTING | OPEN | CLOSING | CLOSED

record websocket =
  isAuthenticated :: bool
  userId :: "string option"
  sessionId :: "string option"
  readyState :: ready_state
  sendThrows :: "thrown option"

type_synonym heap = "ws_ref \<Rightarrow> websocket"

datatype job_status = PENDING | PROCESSING | COMPLETED | FAILED

text \<open>
  A row of the \<open>jobs\<close> table (shared/schema.ts), without its time stamps; nullable
  columns are options.
\<close>

record job =
  job_id :: int
  job_userId :: string
  job_documentId :: int
  job_status :: "job_status option"
  job_progress :: "int option"
  job_currentStep :: "string option"
  job_errorMessage :: "string option"

datatype process_status = DOC_PROCESSING | DOC_COMPLETED | DOC_FAILED

text \<open>A row of the \<open>documents\<close> table, without its \<open>jsonb\<close> content and time stamps.\<close>

record document =
  doc_id :: int
  doc_userId :: string
  doc_status :: "process_status option"
  doc_videoTitle :: "string option"
  doc_videoDuration :: "real option"
  doc_filePath :: "string option"

text \<open>The \<open>ProgressMessage\<close> interface; its \<open>type\<close> field is the constructor below.\<close>

record progress_message =
  pm_jobId :: int
  pm_status :: job_status
  pm_progress :: int
  pm_currentStep :: "string option"
  pm_errorMessage :: "string option"

datatype server_msg =
    ErrorMsg string
  | Subscribed int string
  | Unsubscribed int string
  | Progress progress_message
  | Pong

text \<open>The fields \<open>updateJobProgress\<close> passes to \<open>storage.updateJob\<close>.\<close>

record job_update =
  upd_progress :: int
  upd_currentStep :: string
  upd_errorMessage :: "string option"
  upd_status :: job_status

text \<open>
  What the server does to the outside, in order: a call of \<open>ws.send\<close> on a connection,
  and a completed \<open>UPDATE\<close> of a job row.
\<close>

datatype event = Send ws_ref server_msg | Persisted int job_update

subsection \<open>Storage\<close>

text \<open>
  The database layer is outside the repository; \<open>dbFailure\<close> says which calls of the
  storage interface raise, and with what.
\<close>

datatype db_call = GetJob int | GetDocument int | UpdateJob int | UpdateDocument int
  | GetUser string | UpsertUser string

record user =
  user_id :: string
  hoursUsed :: real
  hoursLimit :: real

record storage =
  jobs :: "int \<rightharpoonup> job"
  documents :: "int \<rightharpoonup> document"
  users :: "string \<rightharpoonup> user"
  dbFailure :: "db_call \<Rightarrow> thrown option"

definition getJob :: "storage \<Rightarrow> int \<Rightarrow> thrown + job option" where
  "getJob st i = (case dbFailure st (GetJob i) of Some x \<Rightarrow> Inl x | None \<Rightarrow> Inr (jobs st i))"

definition getDocument :: "storage \<Rightarrow> int \<Rightarrow> thrown + document option" where
  "getDocument st i =
     (case dbFailure st (GetDocument i) of Some x \<Rightarrow> Inl x | None \<Rightarrow> Inr (documents st i))"

definition getUser :: "storage \<Rightarrow> string \<Rightarrow> thrown + user option" where
  "getUser st i = (case dbFailure st (GetUser i) of Some x \<Rightarrow> Inl x | None \<Rightarrow> Inr (users st i))"

definition apply_update :: "job_update \<Rightarrow> job \<Rightarrow> job" where
  "apply_update u j = j\<lparr>job_progress := Some (upd_progress u),
                        job_currentStep := Some (upd_currentStep u),
                        job_errorMessage := upd_errorMessage u,
                        job_status := Some (upd_status u)\<rparr>"

text \<open>\<open>UPDATE jobs SET ... WHERE id = i RETURNING *\<close>: no row, no change, no error.\<close>

definition updateJob :: "storage \<Rightarrow> int \<Rightarrow> job_update \<Rightarrow> thrown + (storage \<times> job option)" where
  "updateJob st i u =
     (case dbFailure st (UpdateJob i) of
        Some x \<Rightarrow> Inl x
      | None \<Rightarrow>
          (case jobs st i of
             None \<Rightarrow> Inr (st, None)
           | Some j \<Rightarrow> Inr (st\<lparr>jobs := (jobs st)(i \<mapsto> apply_update u j)\<rparr>, Some (apply_update u j))))"

definition updateDocument :: "storage \<Rightarrow> int \<Rightarrow> (document \<Rightarrow> document) \<Rightarrow> thrown + storage" where
  "updateDocument st i f =
     (case dbFailure st (UpdateDocument i) of
        Some x \<Rightarrow> Inl x
      | None \<Rightarrow>
          (case documents st i of
             None \<Rightarrow> Inr st
           | Some d \<Rightarrow> Inr (st\<lparr>documents := (documents st)(i \<mapsto> f d)\<rparr>)))"

text \<open>\<open>INSERT ... ON CONFLICT (id) DO UPDATE\<close>: the row with this id is the given one.\<close>

definition upsertUser :: "storage \<Rightarrow> user \<Rightarrow> thrown + storage" where
  "upsertUser st u =
     (case dbFailure st (UpsertUser (user_id u)) of
        Some x \<Rightarrow> Inl x
      | None \<Rightarrow> Inr (st\<lparr>users := (users st)(user_id u \<mapsto> u)\<rparr>))"

subsection \<open>The state of the service and its control flow\<close>

text \<open>
  \<open>subscriptions\<close> is the \<open>SubscriptionMap\<close> object: job id to subscriber set. A
  JavaScript \<open>Set\<close> keeps insertion order, so a set is a list without repetition.
  Job ids are integers, on which \<open>toString\<close> is injective, so the key is the id.
\<close>

type_synonym registry = "(int \<times> ws_ref list) list"

record world =
  storage :: storage
  subscriptions :: registry
  trace :: "event list"

text \<open>
  A statement either completes or throws a value; the state reached is kept in both
  cases. For an \<open>async\<close> function, \<open>Thrown\<close> is a rejected promise.
\<close>

datatype 'a outcome = Normal 'a | Thrown thrown 'a

fun and_then :: "'a outcome \<Rightarrow> ('a \<Rightarrow> 'a outcome) \<Rightarrow> 'a outcome" where
  "and_then (Normal s) f = f s"
| "and_then (Thrown x s) f = Thrown x s"

fun try_catch :: "'a outcome \<Rightarrow> (thrown \<Rightarrow> 'a \<Rightarrow> 'a outcome) \<Rightarrow> 'a outcome" where
  "try_catch (Normal s) handler = Normal s"
| "try_catch (Thrown x s) handler = handler x s"

fun state_of :: "'a outcome \<Rightarrow> 'a" where
  "state_of (Normal s) = s"
| "state_of (Thrown x s) = s"

fun returns :: "'a outcome \<Rightarrow> bool" where
  "returns (Normal s) = True"
| "returns (Thrown x s) = False"

definition ws_send :: "heap \<Rightarrow> ws_ref \<Rightarrow> server_msg \<Rightarrow> world \<Rightarrow> world outcome" where
  "ws_send h ws m w =
     (let w' = w\<lparr>trace := trace w @ [Send ws m]\<rparr>
      in case sendThrows (h ws) of Some x \<Rightarrow> Thrown x w' | None \<Rightarrow> Normal w')"

definition set_has :: "ws_ref \<Rightarrow> ws_ref list \<Rightarrow> bool" where
  "set_has ws cs = (ws \<in> set cs)"

definition set_add :: "'a \<Rightarrow> 'a list \<Rightarrow> 'a list" where
  "set_add x xs = (if x \<in> set xs then xs else xs @ [x])"

definition set_delete :: "'a \<Rightarrow> 'a list \<Rightarrow> 'a list" where
  "set_delete x xs = removeAll x xs"

text \<open>\<open>Object.keys\<close>: every own key once.\<close>

definition object_keys :: "registry \<Rightarrow> int list" where
  "object_keys reg = remdups (map fst reg)"

text \<open>JavaScript truthiness of an optional string: \<open>undefined\<close>, \<open>null\<close> and \<open>""\<close> are falsy.\<close>

fun truthy :: "string option \<Rightarrow> bool" where
  "truthy None = False"
| "truthy (Some s) = (s \<noteq> [])"

subsection \<open>handleSubscription\<close>

definition currentStatus :: "job \<Rightarrow> progress_message" where
  "currentStatus j =
     \<lparr>pm_jobId = job_id j,
      pm_status = (case job_status j of None \<Rightarrow> PENDING | Some s \<Rightarrow> s),
      pm_progress = (case job_progress j of None \<Rightarrow> 0 | Some p \<Rightarrow> if p = 0 then 0 else p),
      pm_currentStep = (if truthy (job_currentStep j) then job_currentStep j else Some ''Starting...''),
      pm_errorMessage = (if truthy (job_errorMessage j) then job_errorMessage j else None)\<rparr>"

text \<open>
  Lines 240 to 255: create the set when the key is absent, then add the connection
  unless the set has it. Reading a key that is absent would be a \<open>TypeError\<close>.
\<close>

definition insert_subscriber :: "ws_ref \<Rightarrow> int \<Rightarrow> world \<Rightarrow> world outcome" where
  "insert_subscriber ws jobId w =
     (let subs1 = (case map_of (subscriptions w) jobId of
                     None \<Rightarrow> AList.update jobId [] (subscriptions w)
                   | Some cs \<Rightarrow> subscriptions w)
      in case map_of subs1 jobId of
           None \<Rightarrow> Thrown (Some ''TypeError'') (w\<lparr>subscriptions := subs1\<rparr>)
         | Some cs \<Rightarrow>
             if set_has ws cs then Normal (w\<lparr>subscriptions := subs1\<rparr>)
             else Normal (w\<lparr>subscriptions := AList.update jobId (set_add ws cs) subs1\<rparr>))"

definition subscription_body :: "heap \<Rightarrow> ws_ref \<Rightarrow> int \<Rightarrow> world \<Rightarrow> world outcome" where
  "subscription_body h ws jobId w =
     (if \<not> isAuthenticated (h ws) \<or> \<not> truthy (userId (h ws)) then
        ws_send h ws (ErrorMsg ''Authentication required'') w
      else case getJob (storage w) jobId of
        Inl e \<Rightarrow> Thrown e w
      | Inr None \<Rightarrow> ws_send h ws (ErrorMsg ''Job not found'') w
      | Inr (Some job) \<Rightarrow>
          if Some (job_userId job) \<noteq> userId (h ws) then
            ws_send h ws (ErrorMsg ''Unauthorized: You can only access your own jobs'') w
          else
            and_then (insert_subscriber ws jobId w) (\<lambda>w1.
            and_then (ws_send h ws (Subscribed jobId ''Successfully subscribed to job updates'') w1) (\<lambda>w2.
              case getDocument (storage w2) (job_documentId job) of
                Inl e \<Rightarrow> Thrown e w2
              | Inr document \<Rightarrow> ws_send h ws (Progress (currentStatus job)) w2)))"

definition handleSubscription :: "heap \<Rightarrow> ws_ref \<Rightarrow> int \<Rightarrow> world \<Rightarrow> world outcome" where
  "handleSubscription h ws jobId w =
     try_catch (subscription_body h ws jobId w)
       (\<lambda>error. ws_send h ws (ErrorMsg ''Failed to subscribe to job updates''))"

text \<open>
  \<open>handleSubscription\<close> suspends twice: at \<open>await storage.getJob\<close> and at
  \<open>await storage.getDocument\<close>. While it is suspended, other handlers of the service
  and the pipeline run. What runs during the first suspension runs before the call has
  done anything, so it is part of the state the call starts from. What runs during the
  second is the parameter \<open>during\<close>: it takes the state left by the confirmation to the
  state in which the document fetch returns or throws. The snapshot is built from the
  job row read before, at \<open>getJob\<close>.
\<close>

definition subscription_body_during ::
    "(world \<Rightarrow> world) \<Rightarrow> heap \<Rightarrow> ws_ref \<Rightarrow> int \<Rightarrow> world \<Rightarrow> world outcome" where
  "subscription_body_during during h ws jobId w =
     (if \<not> isAuthenticated (h ws) \<or> \<not> truthy (userId (h ws)) then
        ws_send h ws (ErrorMsg ''Authentication required'') w
      else case getJob (storage w) jobId of
        Inl e \<Rightarrow> Thrown e w
      | Inr None \<Rightarrow> ws_send h ws (ErrorMsg ''Job not found'') w
      | Inr (Some job) \<Rightarrow>
          if Some (job_userId job) \<noteq> userId (h ws) then
            ws_send h ws (ErrorMsg ''Unauthorized: You can only access your own jobs'') w
          else
            and_then (insert_subscriber ws jobId w) (\<lambda>w1.
            and_then (ws_send h ws (Subscribed jobId ''Successfully subscribed to job updates'') w1) (\<lambda>w2.
              case getDocument (storage (during w2)) (job_documentId job) of
                Inl e \<Rightarrow> Thrown e (during w2)
              | Inr document \<Rightarrow> ws_send h ws (Progress (currentStatus job)) (during w2))))"

definition handleSubscription_during ::
    "(world \<Rightarrow> world) \<Rightarrow> heap \<Rightarrow> ws_ref \<Rightarrow> int \<Rightarrow> world \<Rightarrow> world outcome" where
  "handleSubscription_during during h ws jobId w =
     try_catch (subscription_body_during during h ws jobId w)
       (\<lambda>error. ws_send h ws (ErrorMsg ''Failed to subscribe to job updates''))"

subsection \<open>handleUnsubscription\<close>

definition unsubscription_body :: "heap \<Rightarrow> ws_ref \<Rightarrow> int \<Rightarrow> world \<Rightarrow> world outcome" where
  "unsubscription_body h ws jobId w =
     (if \<not> isAuthenticated (h ws) \<or> \<not> truthy (userId (h ws)) then
        ws_send h ws (ErrorMsg ''Authentication required'') w
      else
        let subs1 = (case map_of (subscriptions w) jobId of
                       None \<Rightarrow> subscriptions w
                     | Some cs \<Rightarrow>
                         if length (set_delete ws cs) = 0
                         then AList.delete jobId (AList.update jobId (set_delete ws cs) (subscriptions w))
                         else AList.update jobId (set_delete ws cs) (subscriptions w))
        in ws_send h ws (Unsubscribed jobId ''Successfully unsubscribed from job updates'')
             (w\<lparr>subscriptions := subs1\<rparr>))"

definition handleUnsubscription :: "heap \<Rightarrow> ws_ref \<Rightarrow> int \<Rightarrow> world \<Rightarrow> world outcome" where
  "handleUnsubscription h ws jobId w =
     try_catch (unsubscription_body h ws jobId w)
       (\<lambda>error. ws_send h ws (ErrorMsg ''Failed to unsubscribe from job updates''))"

subsection \<open>cleanupSubscriptions\<close>

text \<open>
  One round of the \<open>forEach\<close> over the keys: delete the connection from the key's set,
  then drop the key when the set is empty.
\<close>

definition cleanup_step :: "ws_ref \<Rightarrow> int \<Rightarrow> world \<Rightarrow> world outcome" where
  "cleanup_step ws jobId w =
     (case map_of (subscriptions w) jobId of
        None \<Rightarrow> Thrown (Some ''TypeError'') w
      | Some cs \<Rightarrow>
          let subs1 = AList.update jobId (set_delete ws cs) (subscriptions w)
          in if length (set_delete ws cs) = 0
             then Normal (w\<lparr>subscriptions := AList.delete jobId subs1\<rparr>)
             else Normal (w\<lparr>subscriptions := subs1\<rparr>))"

definition cleanupSubscriptions :: "ws_ref \<Rightarrow> world \<Rightarrow> world outcome" where
  "cleanupSubscriptions ws w =
     fold (\<lambda>jobId r. and_then r (cleanup_step ws jobId)) (object_keys (subscriptions w)) (Normal w)"

subsection \<open>broadcastProgress\<close>

text \<open>
  One round of the delivery sweep, for one subscriber: the state and the set
  \<open>deadConnections\<close> collected so far go in and come out. The subscriber set itself
  is not touched here.
\<close>

definition deliver :: "heap \<Rightarrow> server_msg \<Rightarrow> ws_ref \<Rightarrow> world \<times> ws_ref list \<Rightarrow> world \<times> ws_ref list" where
  "deliver h message ws = (\<lambda>(w, deadConnections).
     if readyState (h ws) = OPEN then
       (case ws_send h ws message w of
          Normal w' \<Rightarrow> (w', deadConnections)
        | Thrown error w' \<Rightarrow> (w', set_add ws deadConnections))
     else (w, set_add ws deadConnections))"

definition broadcastProgress :: "heap \<Rightarrow> int \<Rightarrow> progress_message \<Rightarrow> world \<Rightarrow> world outcome" where
  "broadcastProgress h jobId progress w =
     (case map_of (subscriptions w) jobId of
        None \<Rightarrow> Normal w
      | Some subscribers \<Rightarrow>
          if length subscribers = 0 then Normal w
          else
            let (w1, deadConnections) = fold (deliver h (Progress progress)) subscribers (w, []);
                subscribers' = fold set_delete deadConnections subscribers;
                subs1 = AList.update jobId subscribers' (subscriptions w1)
            in if length subscribers' = 0
               then Normal (w1\<lparr>subscriptions := AList.delete jobId subs1\<rparr>)
               else Normal (w1\<lparr>subscriptions := subs1\<rparr>))"

section \<open>The video pipeline (jobs/videoProcessor.ts)\<close>

subsection \<open>updateJobProgress\<close>

definition status_for :: "int \<Rightarrow> string option \<Rightarrow> job_status" where
  "status_for progress error =
     (if truthy error then FAILED else if progress = 100 then COMPLETED else PROCESSING)"

text \<open>\<open>error || null\<close>\<close>

definition or_null :: "string option \<Rightarrow> string option" where
  "or_null error = (if truthy error then error else None)"

definition updateJobProgress :: "heap \<Rightarrow> int \<Rightarrow> int \<Rightarrow> string \<Rightarrow> string option \<Rightarrow> world \<Rightarrow> world outcome" where
  "updateJobProgress h jobId progress currentStep error w =
     try_catch
       (let status = status_for progress error;
            updates = \<lparr>upd_progress = progress, upd_currentStep = currentStep,
                       upd_errorMessage = or_null error, upd_status = status\<rparr>
        in case updateJob (storage w) jobId updates of
             Inl updateError \<Rightarrow> Thrown updateError w
           | Inr (st', row) \<Rightarrow>
               broadcastProgress h jobId
                 \<lparr>pm_jobId = jobId, pm_status = status, pm_progress = progress,
                  pm_currentStep = Some currentStep, pm_errorMessage = or_null error\<rparr>
                 (w\<lparr>storage := st', trace := trace w @ [Persisted jobId updates]\<rparr>))
       (\<lambda>updateError w'. Normal w')"

subsection \<open>processVideo\<close>

text \<open>
  The services the pipeline calls (video lookup, transcript, AI structuring, document
  rendering, file system) are parameters: each call either returns or throws a value.
  The value \<open>processVideo\<close> returns is not modelled, only what it does to the job.
\<close>

datatype document_type = EBOOK | TUTORIAL | GUIDE | RECIPE | PRESENTATION | SUMMARY

record processing_job_data =
  youtubeUrl :: string
  documentType :: document_type
  pjd_userId :: string
  pjd_documentId :: int
  pjd_jobId :: int
  userPlan :: string

record structured_content =
  title :: "string option"
  body :: string

record generated_document =
  gd_content :: string
  gd_size :: nat

record services =
  extractVideoId :: "string \<Rightarrow> thrown + string"
  getVideoInfo :: "string \<Rightarrow> thrown + real"
  extractTranscript :: "string \<Rightarrow> thrown + string list"
  transcriptToText :: "string list \<Rightarrow> string"
  structureContent :: "string \<Rightarrow> document_type \<Rightarrow> thrown + structured_content"
  generateDocument :: "structured_content \<Rightarrow> document_type \<Rightarrow> thrown + generated_document"
  saveDocument :: "string \<Rightarrow> int \<Rightarrow> thrown + string"

text \<open>
  The \<open>try\<close> block. \<open>getVideoInfo\<close> gives the duration in seconds; \<open>saveDocument\<close>
  takes the document id from which the file name is built.
\<close>

fun awaiting :: "thrown + 'b \<Rightarrow> 'a \<Rightarrow> ('b \<Rightarrow> 'a outcome) \<Rightarrow> 'a outcome" where
  "awaiting (Inl e) w k = Thrown e w"
| "awaiting (Inr v) w k = k v"

definition pipeline :: "services \<Rightarrow> heap \<Rightarrow> processing_job_data \<Rightarrow> world \<Rightarrow> world outcome" where
  "pipeline sv h d w =
     and_then (updateJobProgress h (pjd_jobId d) 10 ''Analyzing YouTube video...'' None w) (\<lambda>w1.
     awaiting (extractVideoId sv (youtubeUrl d)) w1 (\<lambda>videoId.
     awaiting (getVideoInfo sv videoId) w1 (\<lambda>duration.
     awaiting (getUser (storage w1) (pjd_userId d)) w1 (\<lambda>found.
     case found of
       None \<Rightarrow> Thrown (Some ''User not found'') w1
     | Some user \<Rightarrow>
     if hoursUsed user + duration / 3600 > hoursLimit user
     then Thrown (Some ''Hour limit exceeded for your current plan'') w1
     else
     and_then (updateJobProgress h (pjd_jobId d) 30 ''Extracting video captions...'' None w1) (\<lambda>w2.
     awaiting (extractTranscript sv videoId) w2 (\<lambda>transcript.
     if length (transcriptToText sv transcript) < 100
     then Thrown (Some ''Video too short or insufficient content to process'') w2
     else
     and_then (updateJobProgress h (pjd_jobId d) 60 ''Structuring content with AI...'' None w2) (\<lambda>w3.
     awaiting (structureContent sv (transcriptToText sv transcript) (documentType d)) w3 (\<lambda>structuredContent.
     and_then (updateJobProgress h (pjd_jobId d) 80 ''Generating document...'' None w3) (\<lambda>w4.
     awaiting (generateDocument sv structuredContent (documentType d)) w4 (\<lambda>doc.
     and_then (updateJobProgress h (pjd_jobId d) 90 ''Saving document...'' None w4) (\<lambda>w5.
     awaiting (saveDocument sv (gd_content doc) (pjd_documentId d)) w5 (\<lambda>filePath.
     awaiting (updateDocument (storage w5) (pjd_documentId d)
                 (\<lambda>row. row\<lparr>doc_status := Some DOC_COMPLETED,
                             doc_videoTitle := title structuredContent,
                             doc_videoDuration := Some duration,
                             doc_filePath := Some filePath\<rparr>)) w5 (\<lambda>st6.
     awaiting (upsertUser st6 (user\<lparr>hoursUsed := hoursUsed user + duration / 3600\<rparr>))
              (w5\<lparr>storage := st6\<rparr>) (\<lambda>st7.
     updateJobProgress h (pjd_jobId d) 100 ''Document created successfully!'' None
       (w5\<lparr>storage := st7\<rparr>)))))))))))))))"

definition processVideo :: "services \<Rightarrow> heap \<Rightarrow> processing_job_data \<Rightarrow> world \<Rightarrow> world outcome" where
  "processVideo sv h d w =
     try_catch (pipeline sv h d w)
       (\<lambda>error w'.
          awaiting (updateDocument (storage w') (pjd_documentId d)
                      (\<lambda>row. row\<lparr>doc_status := Some DOC_FAILED\<rparr>)) w' (\<lambda>st'.
          updateJobProgress h (pjd_jobId d) 0 ''Processing failed'' error (w'\<lparr>storage := st'\<rparr>)))"

text \<open>The job statuses written to the store, in the order of the writes.\<close>

fun persisted_statuses :: "event list \<Rightarrow> job_status list" where
  "persisted_statuses [] = []"
| "persisted_statuses (Persisted j u # es) = upd_status u # persisted_statuses es"
| "persisted_statuses (Send ws m # es) = persisted_statuses es"

section \<open>Session validation (services/websocketService.ts)\<close>

text \<open>
  Header values reach the service as strings of code units below 256, so a character
  is a byte; \<open>trim\<close> removes the white space of JavaScript in that range.
\<close>

definition is_js_space :: "char \<Rightarrow> bool" where
  "is_js_space c = (c \<in> set [CHR 0x09, CHR 0x0A, CHR 0x0B, CHR 0x0C, CHR 0x0D, CHR 0x20, CHR 0xA0])"

definition trim :: "string \<Rightarrow> string" where
  "trim s = rev (dropWhile is_js_space (rev (dropWhile is_js_space s)))"

fun split_on :: "char \<Rightarrow> string \<Rightarrow> string list" where
  "split_on c [] = [[]]"
| "split_on c (x # xs) =
     (if x = c then [] # split_on c xs
      else (case split_on c xs of [] \<Rightarrow> [[x]] | p # ps \<Rightarrow> (x # p) # ps))"

fun join_with :: "string \<Rightarrow> string list \<Rightarrow> string" where
  "join_with sep [] = []"
| "join_with sep [p] = p"
| "join_with sep (p # q # ps) = p @ sep @ join_with sep (q # ps)"

type_synonym cookies = "string \<rightharpoonup> string"

definition parse_cookie :: "string \<Rightarrow> cookies \<Rightarrow> cookies" where
  "parse_cookie cookie cookies =
     (let parts = split_on (CHR ''='') (trim cookie)
      in if length parts \<ge> 2
         then cookies(trim (hd parts) \<mapsto> join_with ''='' (tl parts))
         else cookies)"

definition parseCookies :: "string \<Rightarrow> cookies" where
  "parseCookies cookieHeader =
     (if cookieHeader = [] then Map.empty
      else fold parse_cookie (split_on (CHR '';'') cookieHeader) Map.empty)"

text \<open>\<open>lastIndexOf\<close>: the index of the last occurrence, or \<open>-1\<close>.\<close>

definition lastIndexOf :: "char \<Rightarrow> string \<Rightarrow> int" where
  "lastIndexOf c s =
     (if c \<in> set s then int (length s) - 1 - int (length (takeWhile (\<lambda>x. x \<noteq> c) (rev s))) else - 1)"

text \<open>
  \<open>decodeURIComponent\<close> is a parameter: \<open>None\<close> is a \<open>URIError\<close>, which the
  \<open>try\<close> of \<open>decodeSessionId\<close> turns into \<open>null\<close>.
\<close>

definition decodeSessionId :: "(string \<Rightarrow> string option) \<Rightarrow> string \<Rightarrow> string option" where
  "decodeSessionId decodeURIComponent signedCookie =
     (if take 2 signedCookie = ''s:'' then
        (let unsigned = drop 2 signedCookie;
             dotIndex = lastIndexOf (CHR ''.'') unsigned
         in if dotIndex > 0 then Some (take (nat dotIndex) unsigned) else None)
      else
        (case decodeURIComponent signedCookie of
           None \<Rightarrow> None
         | Some decoded \<Rightarrow> if length decoded > 0 then Some decoded else None))"

record claims =
  sub :: "string option"

record session_user =
  user_claims :: "claims option"
  expires_at :: "int option"

record passport =
  passport_user :: "session_user option"

record session_data =
  session_passport :: "passport option"

text \<open>
  What the session store does with \<open>get(sessionId, callback)\<close>: it calls back with an
  error, calls back with a session or nothing, or throws.
\<close>

datatype store_reply = Reply_error | Reply_session "session_data option" | Store_throws thrown

definition getSessionData :: "(string \<Rightarrow> store_reply) \<Rightarrow> string \<Rightarrow> thrown + session_data option" where
  "getSessionData sessionStore sid =
     (case sessionStore sid of
        Reply_error \<Rightarrow> Inr None
      | Reply_session session \<Rightarrow> Inr session
      | Store_throws x \<Rightarrow> Inl x)"

record auth_env =
  decodeURIComponent :: "string \<Rightarrow> string option"
  sessionStore :: "string \<Rightarrow> store_reply"
  nowMs :: int

text \<open>\<open>sessionData.passport?.user\<close>\<close>

definition session_principal :: "session_data \<Rightarrow> session_user option" where
  "session_principal sessionData =
     (case session_passport sessionData of None \<Rightarrow> None | Some p \<Rightarrow> passport_user p)"

text \<open>\<open>user.expires_at && now > user.expires_at\<close>: an absent or zero expiry is falsy.\<close>

definition session_expired :: "int \<Rightarrow> session_user \<Rightarrow> bool" where
  "session_expired now u =
     (case expires_at u of None \<Rightarrow> False | Some e \<Rightarrow> e \<noteq> 0 \<and> now > e)"

definition authenticateConnection :: "auth_env \<Rightarrow> websocket \<Rightarrow> string option \<Rightarrow> bool \<times> websocket" where
  "authenticateConnection env ws cookieHeader =
     (case parseCookies (case cookieHeader of None \<Rightarrow> [] | Some c \<Rightarrow> c) ''connect.sid'' of
        None \<Rightarrow> (False, ws)
      | Some sessionCookie \<Rightarrow>
          if sessionCookie = [] then (False, ws)
          else
            (case decodeSessionId (decodeURIComponent env) sessionCookie of
               None \<Rightarrow> (False, ws)
             | Some sid \<Rightarrow>
                 if sid = [] then (False, ws)
                 else
                   (case getSessionData (sessionStore env) sid of
                      Inl error \<Rightarrow> (False, ws)
                    | Inr None \<Rightarrow> (False, ws)
                    | Inr (Some sessionData) \<Rightarrow>
                        (case session_principal sessionData of
                           None \<Rightarrow> (False, ws)
                         | Some u \<Rightarrow>
                             (case user_claims u of
                                None \<Rightarrow> (False, ws)
                              | Some cl \<Rightarrow>
                                  if \<not> truthy (sub cl) then (False, ws)
                                  else if session_expired (nowMs env div 1000) u then (False, ws)
                                  else (True, ws\<lparr>isAuthenticated := True,
                                                  userId := sub cl,
                                                  sessionId := Some sid\<rparr>))))))"

section \<open>Client side: the useSocket hook (client/src/hooks/useSocket.ts)\<close>

text \<open>
  The hook's state variables and refs are the fields of one record. \<open>ws_state\<close> is the
  ready state of the WebSocket object the handlers close over, \<open>socket\<close> says whether
  the \<open>socket\<close> state variable holds it (rather than \<open>null\<close>). A timer ref is the
  timer that is armed: the reconnect timer with its delay in milliseconds, and the
  200 ms timer that ends the settling delay. \<open>sent\<close> lists the calls of \<open>send\<close> on
  the socket, and \<open>client_send_throws\<close> says whether the browser's \<open>send\<close> raises.
  Message handlers registered by the caller are not part of the model.
\<close>

datatype connection_state = Disconnected | Connecting | Connected | Authenticated

datatype client_msg = Subscribe int | Unsubscribe int

record client =
  socket :: bool
  ws_state :: ready_state
  isConnected :: bool
  connectionState :: connection_state
  lastMessage :: "server_msg option"
  reconnectTimeout :: "nat option"
  reconnectAttempts :: nat
  pendingSubscriptions :: "int list"
  activeSubscriptions :: "int list"
  connectionReady :: bool
  subscriptionReadyTimeout :: bool
  sent :: "client_msg list"
  client_send_throws :: "thrown option"

definition maxReconnectAttempts :: nat where
  "maxReconnectAttempts = 5"

definition client_send :: "client_msg \<Rightarrow> client \<Rightarrow> client outcome" where
  "client_send m c =
     (let c' = c\<lparr>sent := sent c @ [m]\<rparr>
      in case client_send_throws c of Some x \<Rightarrow> Thrown x c' | None \<Rightarrow> Normal c')"

definition connect :: "client \<Rightarrow> client" where
  "connect c = c\<lparr>connectionState := Connecting, ws_state := CONNECTING\<rparr>"

text \<open>The reconnect timer fires: it is no longer armed, and \<open>connect\<close> runs.\<close>

definition reconnect_fires :: "client \<Rightarrow> client" where
  "reconnect_fires c = connect (c\<lparr>reconnectTimeout := None\<rparr>)"

definition onopen :: "client \<Rightarrow> client" where
  "onopen c = c\<lparr>ws_state := OPEN,
                 connectionState := Connected,
                 isConnected := True,
                 socket := True,
                 reconnectAttempts := 0,
                 subscriptionReadyTimeout := True\<rparr>"

text \<open>One round of \<open>allSubs.forEach\<close>: a send that throws puts the id back into pending.\<close>

definition resubscribe :: "int \<Rightarrow> client \<Rightarrow> client" where
  "resubscribe jobId c =
     state_of (try_catch (client_send (Subscribe jobId) c)
       (\<lambda>error c'. Normal (c'\<lparr>pendingSubscriptions := set_add jobId (pendingSubscriptions c')\<rparr>)))"

text \<open>The callback of the 200 ms timer (lines 138 to 162).\<close>

definition subscription_ready :: "client \<Rightarrow> client" where
  "subscription_ready c =
     (let c1 = c\<lparr>subscriptionReadyTimeout := False,
                 connectionReady := True,
                 connectionState := Authenticated\<rparr>;
          pendingSubs = pendingSubscriptions c1;
          activeSubs = activeSubscriptions c1;
          allSubs = fold set_add (pendingSubs @ activeSubs) [];
          c2 = c1\<lparr>pendingSubscriptions := []\<rparr>
      in fold resubscribe allSubs c2)"

text \<open>\<open>String.prototype.includes\<close>\<close>

fun str_includes :: "string \<Rightarrow> string \<Rightarrow> bool" where
  "str_includes [] p = (p = [])"
| "str_includes (x # xs) p = (take (length p) (x # xs) = p \<or> str_includes xs p)"

text \<open>\<open>None\<close> is data that \<open>JSON.parse\<close> rejects; the handler catches that.\<close>

definition onmessage :: "server_msg option \<Rightarrow> client \<Rightarrow> client" where
  "onmessage data c =
     (case data of
        None \<Rightarrow> c
      | Some message \<Rightarrow>
          let c1 = c\<lparr>lastMessage := Some message\<rparr>;
              c2 = (case message of
                      Subscribed jobId text \<Rightarrow>
                        if jobId \<noteq> 0
                        then c1\<lparr>activeSubscriptions := set_add jobId (activeSubscriptions c1),
                                pendingSubscriptions := set_delete jobId (pendingSubscriptions c1)\<rparr>
                        else c1
                    | _ \<Rightarrow> c1)
          in (case message of
                ErrorMsg text \<Rightarrow>
                  if str_includes text ''Authentication''
                  then c2\<lparr>connectionState := Disconnected, connectionReady := False\<rparr>
                  else c2
              | _ \<Rightarrow> c2))"

definition reconnect_delay :: "nat \<Rightarrow> nat" where
  "reconnect_delay attempts = min (1000 * 2 ^ attempts) 30000"

definition onclose :: "int \<Rightarrow> client \<Rightarrow> client" where
  "onclose code c =
     (let c1 = c\<lparr>ws_state := CLOSED,
                 isConnected := False,
                 socket := False,
                 connectionReady := False,
                 connectionState := Disconnected,
                 subscriptionReadyTimeout := False\<rparr>;
          activeSubs = activeSubscriptions c1;
          c2 = c1\<lparr>pendingSubscriptions := fold set_add activeSubs (pendingSubscriptions c1),
                  activeSubscriptions := []\<rparr>
      in if code \<noteq> 1000 \<and> reconnectAttempts c2 < maxReconnectAttempts
         then c2\<lparr>reconnectAttempts := reconnectAttempts c2 + 1,
                 reconnectTimeout := Some (reconnect_delay (reconnectAttempts c2 + 1))\<rparr>
         else c2)"

text \<open>\<open>sendMessage\<close> gives its boolean result and what happened to the state.\<close>

definition sendMessage :: "client_msg \<Rightarrow> client \<Rightarrow> bool \<times> client outcome" where
  "sendMessage m c =
     (if socket c \<and> ws_state c = OPEN \<and> connectionReady c
      then (True, client_send m c)
      else (False, Normal c))"

definition subscribeToJob :: "int \<Rightarrow> client \<Rightarrow> bool \<times> client outcome" where
  "subscribeToJob jobId c =
     (let c1 = c\<lparr>activeSubscriptions := set_add jobId (activeSubscriptions c)\<rparr>
      in if socket c1 \<and> ws_state c1 = OPEN \<and> connectionReady c1
            \<and> connectionState c1 = Authenticated
         then
           (let (success, r) = sendMessage (Subscribe jobId) c1
            in (success,
                and_then r (\<lambda>c2.
                  if success
                  then Normal (c2\<lparr>pendingSubscriptions := set_delete jobId (pendingSubscriptions c2)\<rparr>)
                  else Normal (c2\<lparr>pendingSubscriptions := set_add jobId (pendingSubscriptions c2)\<rparr>))))
         else (False, Normal (c1\<lparr>pendingSubscriptions := set_add jobId (pendingSubscriptions c1)\<rparr>)))"

definition unsubscribeFromJob :: "int \<Rightarrow> client \<Rightarrow> client outcome" where
  "unsubscribeFromJob jobId c =
     (let c1 = c\<lparr>activeSubscriptions := set_delete jobId (activeSubscriptions c),
                 pendingSubscriptions := set_delete jobId (pendingSubscriptions c)\<rparr>
      in if socket c1 \<and> ws_state c1 = OPEN \<and> connectionReady c1
         then snd (sendMessage (Unsubscribe jobId) c1)
         else Normal c1)"

section \<open>Notions used in the statements\<close>

text \<open>The subscriber set of a job, empty when the registry has no entry for it.\<close>

definition subscribers_of :: "registry \<Rightarrow> int \<Rightarrow> ws_ref list" where
  "subscribers_of reg jobId = (case map_of reg jobId of None \<Rightarrow> [] | Some cs \<Rightarrow> cs)"

definition is_open :: "heap \<Rightarrow> ws_ref \<Rightarrow> bool" where
  "is_open h c = (readyState (h c) = OPEN)"

text \<open>A connection that survives a broadcast: its transport is open and its send returns.\<close>

definition deliverable :: "heap \<Rightarrow> ws_ref \<Rightarrow> bool" where
  "deliverable h c = (readyState (h c) = OPEN \<and> sendThrows (h c) = None)"

text \<open>A registry, as a map, once a connection is gone from every set and empty sets are dropped.\<close>

definition drop_connection :: "ws_ref \<Rightarrow> (int \<rightharpoonup> ws_ref list) \<Rightarrow> (int \<rightharpoonup> ws_ref list)" where
  "drop_connection ws m =
     (\<lambda>k. case m k of
             None \<Rightarrow> None
           | Some cs \<Rightarrow> if removeAll ws cs = [] then None else Some (removeAll ws cs))"

text \<open>The registry keeps no entry with an empty subscriber set.\<close>

definition no_empty_sets :: "registry \<Rightarrow> bool" where
  "no_empty_sets reg = (\<forall>k cs. map_of reg k = Some cs \<longrightarrow> cs \<noteq> [])"

definition unauthorized_msg :: server_msg where
  "unauthorized_msg = ErrorMsg ''Unauthorized: You can only access your own jobs''"



text \<open>
  The snapshot as the specification words it: the stored status, progress, step and
  error of the job, with \<open>PENDING\<close>, \<open>0\<close> and \<open>"Starting..."\<close> for what is unset. An
  empty step or error string counts as unset. \<open>currentStatus\<close> above is the one the
  code builds; \<open>currentStatus_snapshot\<close> below compares the two.
\<close>

definition snapshot_of :: "job \<Rightarrow> progress_message" where
  "snapshot_of j =
     \<lparr>pm_jobId = job_id j,
      pm_status = (case job_status j of None \<Rightarrow> PENDING | Some s \<Rightarrow> s),
      pm_progress = (case job_progress j of None \<Rightarrow> 0 | Some p \<Rightarrow> p),
      pm_currentStep = Some (case job_currentStep j of
                               None \<Rightarrow> ''Starting...''
                             | Some s \<Rightarrow> if s = [] then ''Starting...'' else s),
      pm_errorMessage = (case job_errorMessage j of
                           None \<Rightarrow> None
                         | Some e \<Rightarrow> if e = [] then None else Some e)\<rparr>"

text \<open>What \<open>updateJobProgress\<close> writes to the store and what it broadcasts.\<close>

definition progress_update :: "int \<Rightarrow> string \<Rightarrow> string option \<Rightarrow> job_update" where
  "progress_update progress currentStep error =
     \<lparr>upd_progress = progress, upd_currentStep = currentStep,
      upd_errorMessage = or_null error, upd_status = status_for progress error\<rparr>"

definition progress_event :: "int \<Rightarrow> int \<Rightarrow> string \<Rightarrow> string option \<Rightarrow> progress_message" where
  "progress_event jobId progress currentStep error =
     \<lparr>pm_jobId = jobId, pm_status = status_for progress error, pm_progress = progress,
      pm_currentStep = Some currentStep, pm_errorMessage = or_null error\<rparr>"

text \<open>
  How the list of persisted statuses grows from one state to another: by \<open>PROCESSING\<close>
  only, with the database failing as before; or by \<open>PROCESSING\<close> followed by at most
  one more status. A run of the \<open>try\<close> block that throws is of the first kind, one
  that completes is of the second.
\<close>

definition quiet_extension :: "world \<Rightarrow> world \<Rightarrow> bool" where
  "quiet_extension w w' =
     (dbFailure (storage w') = dbFailure (storage w)
      \<and> (\<exists>sts. persisted_statuses (trace w') = persisted_statuses (trace w) @ sts
                \<and> set sts \<subseteq> {PROCESSING}))"

definition closing_extension :: "world \<Rightarrow> world \<Rightarrow> bool" where
  "closing_extension w w' =
     (\<exists>sts final. persisted_statuses (trace w') = persisted_statuses (trace w) @ sts @ final
                \<and> set sts \<subseteq> {PROCESSING} \<and> length final \<le> 1)"

definition pipeline_outcome :: "world \<Rightarrow> world outcome \<Rightarrow> bool" where
  "pipeline_outcome w r =
     (case r of Thrown x w' \<Rightarrow> quiet_extension w w' | Normal w' \<Rightarrow> closing_extension w w')"

text \<open>\<open>req.headers.cookie || ''\<close>\<close>

definition cookie_header :: "string option \<Rightarrow> string" where
  "cookie_header cookieHeader = (case cookieHeader of None \<Rightarrow> [] | Some c \<Rightarrow> c)"

text \<open>
  The conditions under which the specification accepts a connection as user \<open>uid\<close> with
  session \<open>sid\<close>, the expiry read as the code reads it: absent or zero counts as no
  expiry.
\<close>

definition session_accepted :: "auth_env \<Rightarrow> string option \<Rightarrow> string \<Rightarrow> string \<Rightarrow> bool" where
  "session_accepted env cookieHeader uid sid =
     (\<exists>sessionCookie sessionData u cl.
        parseCookies (cookie_header cookieHeader) ''connect.sid'' = Some sessionCookie
      \<and> sessionCookie \<noteq> []
      \<and> decodeSessionId (decodeURIComponent env) sessionCookie = Some sid
      \<and> sid \<noteq> []
      \<and> sessionStore env sid = Reply_session (Some sessionData)
      \<and> session_principal sessionData = Some u
      \<and> user_claims u = Some cl
      \<and> sub cl = Some uid \<and> uid \<noteq> []
      \<and> (expires_at u = None \<or> expires_at u = Some 0
           \<or> (\<exists>e. expires_at u = Some e \<and> nowMs env div 1000 \<le> e)))"


text \<open>The test of \<open>subscribeToJob\<close> for sending at once rather than queuing.\<close>

definition socket_ready :: "client \<Rightarrow> bool" where
  "socket_ready c =
     (socket c \<and> ws_state c = OPEN \<and> connectionReady c \<and> connectionState c = Authenticated)"

subsection \<open>Example states\<close>

text \<open>
  Connection 1 is open and belongs to alice; connection 2 belongs to bob and is closed;
  every other connection is open, belongs to alice, and its send raises.
\<close>

definition alice_ws :: websocket where
  "alice_ws = \<lparr>isAuthenticated = True, userId = Some ''alice'', sessionId = Some ''sess-a'',
               readyState = OPEN, sendThrows = None\<rparr>"

definition bob_ws :: websocket where
  "bob_ws = \<lparr>isAuthenticated = True, userId = Some ''bob'', sessionId = Some ''sess-b'',
             readyState = CLOSED, sendThrows = None\<rparr>"

definition carol_ws :: websocket where
  "carol_ws = \<lparr>isAuthenticated = True, userId = Some ''alice'', sessionId = Some ''sess-c'',
               readyState = OPEN, sendThrows = Some (Some ''write EPIPE'')\<rparr>"

definition example_heap :: heap where
  "example_heap r = (if r = 1 then alice_ws else if r = 2 then bob_ws else carol_ws)"

definition job7 :: job where
  "job7 = \<lparr>job_id = 7, job_userId = ''alice'', job_documentId = 70,
           job_status = Some PROCESSING, job_progress = Some 60,
           job_currentStep = Some ''Structuring content with AI...'', job_errorMessage = None\<rparr>"

definition job42 :: job where
  "job42 = \<lparr>job_id = 42, job_userId = ''bob'', job_documentId = 420,
            job_status = None, job_progress = None,
            job_currentStep = None, job_errorMessage = None\<rparr>"

definition doc70 :: document where
  "doc70 = \<lparr>doc_id = 70, doc_userId = ''alice'', doc_status = Some DOC_PROCESSING,
            doc_videoTitle = None, doc_videoDuration = None, doc_filePath = None\<rparr>"

definition example_storage :: storage where
  "example_storage = \<lparr>jobs = [7 \<mapsto> job7, 42 \<mapsto> job42], documents = [70 \<mapsto> doc70],
                      users = Map.empty, dbFailure = (\<lambda>c. None)\<rparr>"

definition example_world :: world where
  "example_world =
     \<lparr>storage = example_storage, subscriptions = [(42, [1, 2]), (9, [1])], trace = []\<rparr>"

text \<open>The same, with a database that fails on the fetch of document 70.\<close>

definition documents_down :: world where
  "documents_down = example_world\<lparr>storage := example_storage\<lparr>dbFailure :=
       (\<lambda>c. if c = GetDocument 70 then Some (Some ''connection terminated'') else None)\<rparr>\<rparr>"

definition crowd :: world where
  "crowd = \<lparr>storage = example_storage, subscriptions = [(7, [1, 2, 3]), (42, [2])], trace = []\<rparr>"

definition job7_done :: job where
  "job7_done = \<lparr>job_id = 7, job_userId = ''alice'', job_documentId = 70,
           job_status = Some COMPLETED, job_progress = Some 100,
           job_currentStep = Some ''Document created successfully!'', job_errorMessage = None\<rparr>"

definition finished_world :: world where
  "finished_world =
     \<lparr>storage = \<lparr>jobs = [7 \<mapsto> job7_done], documents = [70 \<mapsto> doc70],
                  users = Map.empty, dbFailure = (\<lambda>c. None)\<rparr>,
      subscriptions = [(7, [1])], trace = []\<rparr>"

definition example_services :: services where
  "example_services =
     \<lparr>extractVideoId = (\<lambda>url. Inr ''dQw4w9WgXcQ''),
      getVideoInfo = (\<lambda>videoId. Inr 2700),
      extractTranscript = (\<lambda>videoId. Inr [''Welcome to this guide'']),
      transcriptToText = (\<lambda>transcript. replicate 120 (CHR ''a'')),
      structureContent = (\<lambda>fullText documentType. Inl (Some ''AI service unavailable'')),
      generateDocument = (\<lambda>c documentType. Inr \<lparr>gd_content = ''<html></html>'', gd_size = 13\<rparr>),
      saveDocument = (\<lambda>c documentId. Inr ''uploads/document_70.html'')\<rparr>"

definition example_job_data :: processing_job_data where
  "example_job_data = \<lparr>youtubeUrl = ''https://youtu.be/dQw4w9WgXcQ'', documentType = EBOOK,
      pjd_userId = ''alice'', pjd_documentId = 70, pjd_jobId = 7, userPlan = ''FREE''\<rparr>"

definition pipeline_world :: world where
  "pipeline_world =
     \<lparr>storage = example_storage\<lparr>users := [''alice'' \<mapsto> \<lparr>user_id = ''alice'', hoursUsed = 0, hoursLimit = 1\<rparr>]\<rparr>,
      subscriptions = [(7, [1])], trace = []\<rparr>"

definition alice_session :: session_data where
  "alice_session = \<lparr>session_passport = Some \<lparr>passport_user = Some
       \<lparr>user_claims = Some \<lparr>sub = Some ''alice''\<rparr>, expires_at = Some 1800000000\<rparr>\<rparr>\<rparr>"

definition zero_expiry_session :: session_data where
  "zero_expiry_session = \<lparr>session_passport = Some \<lparr>passport_user = Some
       \<lparr>user_claims = Some \<lparr>sub = Some ''alice''\<rparr>, expires_at = Some 0\<rparr>\<rparr>\<rparr>"

definition example_env :: auth_env where
  "example_env = \<lparr>decodeURIComponent = Some,
      sessionStore = (\<lambda>sid. if sid = ''abc'' then Reply_session (Some alice_session)
                            else if sid = ''old'' then Reply_session (Some zero_expiry_session)
                            else if sid = ''err'' then Reply_error
                            else Reply_session None),
      nowMs = 1700000000000\<rparr>"

definition fresh_ws :: websocket where
  "fresh_ws = \<lparr>isAuthenticated = False, userId = None, sessionId = None,
               readyState = OPEN, sendThrows = None\<rparr>"

definition idle_client :: client where
  "idle_client = \<lparr>socket = False, ws_state = CLOSED, isConnected = False,
      connectionState = Disconnected, lastMessage = None, reconnectTimeout = None,
      reconnectAttempts = 0, pendingSubscriptions = [], activeSubscriptions = [],
      connectionReady = False, subscriptionReadyTimeout = False, sent = [],
      client_send_throws = None\<rparr>"

definition watching_client :: client where
  "watching_client = idle_client\<lparr>socket := True, ws_state := OPEN, isConnected := True,
      connectionState := Authenticated, connectionReady := True,
      pendingSubscriptions := [9], activeSubscriptions := [7, 9]\<rparr>"



text \<open>A client that has just reconnected, with one request pending and none active.\<close>

definition lost_client :: client where
  "lost_client = idle_client\<lparr>socket := True, ws_state := OPEN, isConnected := True,
      connectionState := Connected, pendingSubscriptions := [7], activeSubscriptions := []\<rparr>"

section \<open>Properties\<close>

lemmas example_defs = alice_ws_def bob_ws_def carol_ws_def example_heap_def job7_def job42_def
  doc70_def example_storage_def example_world_def documents_down_def crowd_def

subsection \<open>Sending\<close>


subsection \<open>cleanupSubscriptions\<close>

lemma cleanup_step_present:
  assumes "map_of (subscriptions w) k = Some cs"
  shows "\<exists>w'. cleanup_step ws k w = Normal w' \<and> storage w' = storage w \<and> trace w' = trace w
           \<and> map_of (subscriptions w') = (map_of (subscriptions w))(k := drop_connection ws (map_of (subscriptions w)) k)"
  using assms
  by (auto simp: cleanup_step_def Let_def set_delete_def drop_connection_def
        update_conv delete_conv fun_eq_iff)

lemma cleanup_fold:
  assumes "set ks \<subseteq> dom (map_of (subscriptions w))" "distinct ks"
  shows "\<exists>w'. fold (\<lambda>jobId r. and_then r (cleanup_step ws jobId)) ks (Normal w) = Normal w'
           \<and> storage w' = storage w \<and> trace w' = trace w
           \<and> map_of (subscriptions w') =
               (\<lambda>k. if k \<in> set ks then drop_connection ws (map_of (subscriptions w)) k
                    else map_of (subscriptions w) k)"
  using assms
proof (induction ks arbitrary: w)
  case Nil
  then show ?case by simp
next
  case (Cons k ks)
  from Cons.prems obtain cs where cs: "map_of (subscriptions w) k = Some cs" by auto
  from cleanup_step_present[OF cs, of ws] obtain w1 where
    w1: "cleanup_step ws k w = Normal w1" "storage w1 = storage w" "trace w1 = trace w"
        "map_of (subscriptions w1) = (map_of (subscriptions w))(k := drop_connection ws (map_of (subscriptions w)) k)"
    by blast
  have sub: "set ks \<subseteq> dom (map_of (subscriptions w1))"
    using Cons.prems w1(4) by (auto simp: dom_def)
  have dist: "distinct ks" using Cons.prems by simp
  from Cons.IH[OF sub dist] obtain w' where
    w': "fold (\<lambda>jobId r. and_then r (cleanup_step ws jobId)) ks (Normal w1) = Normal w'"
        "storage w' = storage w1" "trace w' = trace w1"
        "map_of (subscriptions w') =
               (\<lambda>k. if k \<in> set ks then drop_connection ws (map_of (subscriptions w1)) k
                    else map_of (subscriptions w1) k)"
    by blast
  have "k \<notin> set ks" using Cons.prems by simp
  then have "map_of (subscriptions w') =
               (\<lambda>j. if j \<in> set (k # ks) then drop_connection ws (map_of (subscriptions w)) j
                    else map_of (subscriptions w) j)"
    using w'(4) w1(4) by (auto simp: fun_eq_iff drop_connection_def)
  then show ?case using w1 w' by simp
qed

lemma cleanup_characterised:
  "\<exists>w'. cleanupSubscriptions ws w = Normal w' \<and> storage w' = storage w \<and> trace w' = trace w
         \<and> map_of (subscriptions w') = drop_connection ws (map_of (subscriptions w))"
proof -
  have a: "set (object_keys (subscriptions w)) \<subseteq> dom (map_of (subscriptions w))"
    by (auto simp: object_keys_def dom_map_of_conv_image_fst)
  have b: "distinct (object_keys (subscriptions w))" by (simp add: object_keys_def)
  from cleanup_fold[OF a b, of ws] obtain w' where
    w': "fold (\<lambda>jobId r. and_then r (cleanup_step ws jobId)) (object_keys (subscriptions w)) (Normal w) = Normal w'"
      "storage w' = storage w" "trace w' = trace w"
      "map_of (subscriptions w') =
               (\<lambda>k. if k \<in> set (object_keys (subscriptions w)) then drop_connection ws (map_of (subscriptions w)) k
                    else map_of (subscriptions w) k)" by blast
  have none: "\<And>k. k \<notin> set (object_keys (subscriptions w)) \<Longrightarrow> map_of (subscriptions w) k = None"
    by (simp add: object_keys_def map_of_eq_None_iff)
  have "map_of (subscriptions w') = drop_connection ws (map_of (subscriptions w))"
    unfolding w'(4) using none by (auto simp: fun_eq_iff drop_connection_def)
  then show ?thesis using w' by (simp add: cleanupSubscriptions_def)
qed

lemma cleanup_step_noop:
  assumes "map_of (subscriptions w) k = Some cs" "ws \<notin> set cs" "cs \<noteq> []"
  shows "cleanup_step ws k w = Normal w"
  using assms by (simp add: cleanup_step_def set_delete_def update_triv)

lemma cleanup_fold_noop:
  assumes "set ks \<subseteq> dom (map_of (subscriptions w))"
    and "\<forall>k cs. map_of (subscriptions w) k = Some cs \<longrightarrow> ws \<notin> set cs \<and> cs \<noteq> []"
  shows "fold (\<lambda>jobId r. and_then r (cleanup_step ws jobId)) ks (Normal w) = Normal w"
  using assms(1)
proof (induction ks)
  case Nil
  then show ?case by simp
next
  case (Cons k ks)
  then obtain cs where cs: "map_of (subscriptions w) k = Some cs" by auto
  with assms(2) have "cleanup_step ws k w = Normal w" by (simp add: cleanup_step_noop)
  with Cons show ?case by simp
qed

text \<open>
  Claim C4. \<open>cleanupSubscriptions\<close> (the \<open>dropAll\<close> of the specification) returns;
  afterwards the connection is in no subscriber set and no job id has an empty set; a
  connection other than the dropped one is in a job's set exactly when it was before;
  and running the cleanup again for the same connection returns the same state.
\<close>

theorem cleanupSubscriptions_drops_connection:
  "\<exists>w'. cleanupSubscriptions ws w = Normal w'
     \<and> (\<forall>jobId cs. map_of (subscriptions w') jobId = Some cs \<longrightarrow> ws \<notin> set cs \<and> cs \<noteq> [])
     \<and> (\<forall>jobId c. c \<noteq> ws \<longrightarrow>
           (c \<in> set (case map_of (subscriptions w') jobId of None \<Rightarrow> [] | Some cs \<Rightarrow> cs)) =
           (c \<in> set (case map_of (subscriptions w) jobId of None \<Rightarrow> [] | Some cs \<Rightarrow> cs)))
     \<and> cleanupSubscriptions ws w' = Normal w'"
proof -
  from cleanup_characterised[of ws w] obtain w' where
    w': "cleanupSubscriptions ws w = Normal w'"
        "map_of (subscriptions w') = drop_connection ws (map_of (subscriptions w))" by blast
  have clean: "\<forall>k cs. map_of (subscriptions w') k = Some cs \<longrightarrow> ws \<notin> set cs \<and> cs \<noteq> []"
    unfolding w'(2) by (auto simp: drop_connection_def split: option.splits if_splits)
  have keys: "set (object_keys (subscriptions w')) \<subseteq> dom (map_of (subscriptions w'))"
    by (auto simp: object_keys_def dom_map_of_conv_image_fst)
  have again: "cleanupSubscriptions ws w' = Normal w'"
    unfolding cleanupSubscriptions_def by (rule cleanup_fold_noop[OF keys clean])
  have only: "\<And>cs c. removeAll ws cs = [] \<Longrightarrow> c \<in> set cs \<Longrightarrow> c = ws"
  proof -
    fix cs c assume e: "removeAll ws cs = []" and m: "c \<in> set cs"
    have "set (removeAll ws cs) = set cs - {ws}" by simp
    with e m show "c = ws" by auto
  qed
  have frame: "\<And>jobId c. c \<noteq> ws \<Longrightarrow>
           (c \<in> set (case map_of (subscriptions w') jobId of None \<Rightarrow> [] | Some cs \<Rightarrow> cs)) =
           (c \<in> set (case map_of (subscriptions w) jobId of None \<Rightarrow> [] | Some cs \<Rightarrow> cs))"
    unfolding w'(2) by (auto simp: drop_connection_def split: option.splits if_splits dest: only)
  show ?thesis using w'(1) clean again frame by blast
qed

theorem cleanupSubscriptions_drops_connection_witness:
  "\<exists>w'. cleanupSubscriptions 1 example_world = Normal w'
     \<and> map_of (subscriptions w') 42 = Some [2] \<and> 1 \<notin> set [2::nat] \<and> map_of (subscriptions w') 9 = None"
  using cleanupSubscriptions_drops_connection [of 1 example_world]
  by (simp add: example_defs cleanupSubscriptions_def object_keys_def cleanup_step_def set_delete_def)

subsection \<open>handleSubscription\<close>

text \<open>
  Claim C1. A connection authenticated as user \<open>U\<close> subscribes to a stored job whose
  owner is not \<open>U\<close>: the subscriptions are unchanged, and the first message sent to the
  connection is the authorization error (the only one, when the send returns). The
  state \<open>w\<close> is arbitrary, so the comparison does not depend on what the connection
  subscribed to before.
\<close>

theorem subscribe_foreign_job_rejected:
  assumes "isAuthenticated (h ws)" and "userId (h ws) = Some U" and "U \<noteq> []"
    and "getJob (storage w) jobId = Inr (Some job)" and "job_userId job \<noteq> U"
  shows "subscriptions (state_of (handleSubscription h ws jobId w)) = subscriptions w
       \<and> (\<exists>rest. trace (state_of (handleSubscription h ws jobId w))
                  = trace w @ Send ws unauthorized_msg # rest)
       \<and> (sendThrows (h ws) = None \<longrightarrow>
            handleSubscription h ws jobId w = Normal (w\<lparr>trace := trace w @ [Send ws unauthorized_msg]\<rparr>))"
proof -
  have body: "subscription_body h ws jobId w = ws_send h ws unauthorized_msg w"
    using assms by (simp add: subscription_body_def unauthorized_msg_def)
  show ?thesis
  proof (cases "sendThrows (h ws)")
    case None
    then show ?thesis
      by (simp add: handleSubscription_def body ws_send_def)
  next
    case (Some x)
    then show ?thesis
      by (simp add: handleSubscription_def body ws_send_def)
  qed
qed

theorem subscribe_foreign_job_rejected_witness:
  "isAuthenticated (example_heap 1) \<and> userId (example_heap 1) = Some ''alice''
   \<and> getJob (storage example_world) 42 = Inr (Some job42) \<and> job_userId job42 \<noteq> ''alice''
   \<and> set_has 1 (subscribers_of (subscriptions example_world) 42)
   \<and> handleSubscription example_heap 1 42 example_world
       = Normal (example_world\<lparr>trace := [Send 1 unauthorized_msg]\<rparr>)"
  using subscribe_foreign_job_rejected [of example_heap 1 "''alice''" example_world 42 job42]
  by (simp add: example_defs getJob_def subscribers_of_def set_has_def)

lemma insert_subscriber_result:
  "\<exists>w1. insert_subscriber ws jobId w = Normal w1 \<and> storage w1 = storage w \<and> trace w1 = trace w
     \<and> map_of (subscriptions w1) = (map_of (subscriptions w))(jobId \<mapsto> set_add ws (subscribers_of (subscriptions w) jobId))
     \<and> (ws \<in> set (subscribers_of (subscriptions w) jobId) \<longrightarrow> w1 = w)"
  by (cases "map_of (subscriptions w) jobId")
     (auto simp: insert_subscriber_def subscribers_of_def set_has_def set_add_def update_conv' update_triv fun_eq_iff)




lemma handleSubscription_during_nothing:
  "handleSubscription_during (\<lambda>x. x) h ws jobId w = handleSubscription h ws jobId w"
  by (simp add: handleSubscription_during_def handleSubscription_def
      subscription_body_during_def subscription_body_def)








subsection \<open>broadcastProgress\<close>

lemma fold_set_delete: "fold set_delete ds xs = filter (\<lambda>x. x \<notin> set ds) xs"
proof (induction ds arbitrary: xs)
  case Nil
  then show ?case by simp
next
  case (Cons d ds)
  have "fold set_delete (d # ds) xs = fold set_delete ds (removeAll d xs)"
    by (simp add: set_delete_def)
  also have "\<dots> = filter (\<lambda>x. x \<notin> set ds) (removeAll d xs)"
    by (rule Cons.IH)
  also have "\<dots> = filter (\<lambda>x. x \<notin> set (d # ds)) xs"
    by (induction xs) auto
  finally show ?case .
qed



lemma set_set_add: "set (set_add x xs) = insert x (set xs)"
  by (auto simp: set_add_def)

lemma deliver_step:
  "deliver h m c (w, dead) =
     (if is_open h c then w\<lparr>trace := trace w @ [Send c m]\<rparr> else w,
      if deliverable h c then dead else set_add c dead)"
proof (cases "sendThrows (h c)")
  case None
  then show ?thesis by (simp add: deliver_def ws_send_def is_open_def deliverable_def)
next
  case (Some x)
  then show ?thesis by (simp add: deliver_def ws_send_def is_open_def deliverable_def)
qed

lemma deliver_sweep_trace:
  "fst (fold (deliver h m) cs (w, dead)) =
     w\<lparr>trace := trace w @ map (\<lambda>c. Send c m) (filter (is_open h) cs)\<rparr>"
proof (induction cs arbitrary: w dead)
  case Nil
  show ?case by simp
next
  case (Cons c cs)
  show ?case
  proof (cases "is_open h c")
    case True
    then show ?thesis by (simp add: deliver_step Cons.IH)
  next
    case False
    then show ?thesis by (simp add: deliver_step Cons.IH)
  qed
qed

lemma deliver_sweep_dead:
  "set (snd (fold (deliver h m) cs (w, dead))) = set dead \<union> {c \<in> set cs. \<not> deliverable h c}"
proof (induction cs arbitrary: w dead)
  case Nil
  show ?case by simp
next
  case (Cons c cs)
  show ?case
  proof (cases "deliverable h c")
    case True
    then show ?thesis by (simp add: deliver_step Cons.IH) blast
  next
    case False
    then show ?thesis by (simp add: deliver_step Cons.IH set_set_add) blast
  qed
qed


lemma broadcast_characterised:
  "\<exists>w'. broadcastProgress h jobId p w = Normal w'
      \<and> storage w' = storage w
      \<and> trace w' = trace w @ map (\<lambda>c. Send c (Progress p))
                               (filter (is_open h) (subscribers_of (subscriptions w) jobId))
      \<and> (map_of (subscriptions w) jobId = None \<longrightarrow> w' = w)
      \<and> (\<forall>cs. map_of (subscriptions w) jobId = Some cs \<and> cs \<noteq> [] \<longrightarrow>
            map_of (subscriptions w') =
              (map_of (subscriptions w))(jobId :=
                 (if filter (deliverable h) cs = [] then None else Some (filter (deliverable h) cs))))"
proof (cases "map_of (subscriptions w) jobId")
  case None
  then show ?thesis by (simp add: broadcastProgress_def subscribers_of_def)
next
  case (Some cs)
  show ?thesis
  proof (cases "cs = []")
    case True
    then show ?thesis using Some by (simp add: broadcastProgress_def subscribers_of_def)
  next
    case False
    define dead' where "dead' = snd (fold (deliver h (Progress p)) cs (w, []))"
    define w1 where "w1 = w\<lparr>trace := trace w @ map (\<lambda>c. Send c (Progress p)) (filter (is_open h) cs)\<rparr>"
    have "fst (fold (deliver h (Progress p)) cs (w, [])) = w1"
      unfolding w1_def by (rule deliver_sweep_trace)
    then have d: "fold (deliver h (Progress p)) cs (w, []) = (w1, dead')"
      by (simp add: dead'_def prod_eq_iff)
    have dead: "set dead' = {c \<in> set cs. \<not> deliverable h c}"
      unfolding dead'_def by (simp add: deliver_sweep_dead)
    have live: "fold set_delete dead' cs = filter (deliverable h) cs"
      unfolding fold_set_delete using dead by (intro filter_cong) auto
    define subs' where "subs' = (if filter (deliverable h) cs = []
        then AList.delete jobId (AList.update jobId (filter (deliverable h) cs) (subscriptions w))
        else AList.update jobId (filter (deliverable h) cs) (subscriptions w))"
    have sw1: "subscriptions w1 = subscriptions w" by (simp add: w1_def)
    have bp: "broadcastProgress h jobId p w = Normal (w1\<lparr>subscriptions := subs'\<rparr>)"
      using Some False d live by (simp add: broadcastProgress_def subs'_def sw1)
    have a: "storage (w1\<lparr>subscriptions := subs'\<rparr>) = storage w" by (simp add: w1_def)
    have b: "trace (w1\<lparr>subscriptions := subs'\<rparr>) = trace w @ map (\<lambda>c. Send c (Progress p))
                               (filter (is_open h) (subscribers_of (subscriptions w) jobId))"
      using Some by (simp add: w1_def subscribers_of_def)
    have c: "map_of (subscriptions (w1\<lparr>subscriptions := subs'\<rparr>)) =
              (map_of (subscriptions w))(jobId :=
                 (if filter (deliverable h) cs = [] then None else Some (filter (deliverable h) cs)))"
      by (simp add: subs'_def update_conv' delete_conv')
    show ?thesis using bp a b c Some by simp
  qed
qed

text \<open>
  Claim C3. \<open>broadcastProgress\<close> returns, whatever the sends do. Without an entry for
  the job the state is unchanged. With a non-empty subscriber set, the event is sent, in
  the order of the set, to every subscriber whose transport is open; afterwards the set
  holds exactly the subscribers that were open and whose send returned, the entry is
  gone when none is left, and the entries of other jobs are untouched.
\<close>

theorem broadcastProgress_delivers_and_prunes:
  "\<exists>w'. broadcastProgress h jobId p w = Normal w'
      \<and> (map_of (subscriptions w) jobId = None \<longrightarrow> w' = w)
      \<and> (\<forall>cs. map_of (subscriptions w) jobId = Some cs \<and> cs \<noteq> [] \<longrightarrow>
            trace w' = trace w @ map (\<lambda>c. Send c (Progress p)) (filter (is_open h) cs)
          \<and> map_of (subscriptions w') jobId =
              (if filter (deliverable h) cs = [] then None else Some (filter (deliverable h) cs))
          \<and> (\<forall>k. k \<noteq> jobId \<longrightarrow> map_of (subscriptions w') k = map_of (subscriptions w) k))"
proof -
  from broadcast_characterised[of h jobId p w] obtain w' where
    w': "broadcastProgress h jobId p w = Normal w'"
        "trace w' = trace w @ map (\<lambda>c. Send c (Progress p))
                               (filter (is_open h) (subscribers_of (subscriptions w) jobId))"
        "map_of (subscriptions w) jobId = None \<longrightarrow> w' = w"
        "\<forall>cs. map_of (subscriptions w) jobId = Some cs \<and> cs \<noteq> [] \<longrightarrow>
            map_of (subscriptions w') =
              (map_of (subscriptions w))(jobId :=
                 (if filter (deliverable h) cs = [] then None else Some (filter (deliverable h) cs)))"
    by (elim exE conjE)
  have nonempty: "\<forall>cs. map_of (subscriptions w) jobId = Some cs \<and> cs \<noteq> [] \<longrightarrow>
            trace w' = trace w @ map (\<lambda>c. Send c (Progress p)) (filter (is_open h) cs)
          \<and> map_of (subscriptions w') jobId =
              (if filter (deliverable h) cs = [] then None else Some (filter (deliverable h) cs))
          \<and> (\<forall>k. k \<noteq> jobId \<longrightarrow> map_of (subscriptions w') k = map_of (subscriptions w) k)"
  proof (intro allI impI)
    fix cs assume cs: "map_of (subscriptions w) jobId = Some cs \<and> cs \<noteq> []"
    have m: "map_of (subscriptions w') =
              (map_of (subscriptions w))(jobId :=
                 (if filter (deliverable h) cs = [] then None else Some (filter (deliverable h) cs)))"
      by (rule w'(4)[rule_format, OF cs])
    have t: "trace w' = trace w @ map (\<lambda>c. Send c (Progress p)) (filter (is_open h) cs)"
      using w'(2) cs by (simp add: subscribers_of_def)
    show "trace w' = trace w @ map (\<lambda>c. Send c (Progress p)) (filter (is_open h) cs)
          \<and> map_of (subscriptions w') jobId =
              (if filter (deliverable h) cs = [] then None else Some (filter (deliverable h) cs))
          \<and> (\<forall>k. k \<noteq> jobId \<longrightarrow> map_of (subscriptions w') k = map_of (subscriptions w) k)"
      using t by (simp add: m)
  qed
  show ?thesis
    by (rule exI[of _ w']) (intro conjI w'(1) w'(3) nonempty)
qed

theorem broadcastProgress_delivers_and_prunes_witness:
  "\<exists>w'. broadcastProgress example_heap 7 (snapshot_of job7) crowd = Normal w'
     \<and> trace w' = [Send 1 (Progress (snapshot_of job7)), Send 3 (Progress (snapshot_of job7))]
     \<and> map_of (subscriptions w') 7 = Some [1]
     \<and> map_of (subscriptions w') 42 = Some [2]
     \<and> broadcastProgress example_heap 5 (snapshot_of job7) crowd = Normal crowd"
  using broadcastProgress_delivers_and_prunes [of example_heap 7 "snapshot_of job7" crowd]
        broadcastProgress_delivers_and_prunes [of example_heap 5 "snapshot_of job7" crowd]
  by (auto simp add: example_defs is_open_def deliverable_def)

subsection \<open>No empty subscriber set is kept\<close>

text \<open>
  The registry starts empty, and every operation of the service that changes it leaves
  it without an empty subscriber set. This is why the statement about
  \<open>broadcastProgress\<close> above speaks of an absent entry and of a non-empty set only.
\<close>

lemma no_empty_sets_initial: "no_empty_sets []"
  by (simp add: no_empty_sets_def)

lemma set_add_nonempty: "set_add x xs \<noteq> []"
  by (auto simp: set_add_def)

lemma ws_send_subscriptions: "subscriptions (state_of (ws_send h ws m w)) = subscriptions w"
  by (cases "sendThrows (h ws)") (simp_all add: ws_send_def)

lemma no_empty_sets_insert:
  assumes "no_empty_sets (subscriptions w)"
  shows "no_empty_sets (subscriptions (state_of (insert_subscriber ws jobId w)))"
proof -
  from insert_subscriber_result[of ws jobId w] obtain w1 where
    w1: "insert_subscriber ws jobId w = Normal w1"
        "map_of (subscriptions w1) = (map_of (subscriptions w))(jobId \<mapsto> set_add ws (subscribers_of (subscriptions w) jobId))"
    by (elim exE conjE)
  show ?thesis using assms by (simp add: w1 no_empty_sets_def set_add_nonempty)
qed

lemma subscription_body_subscriptions:
  "subscriptions (state_of (subscription_body h ws jobId w)) = subscriptions w
   \<or> subscriptions (state_of (subscription_body h ws jobId w))
       = subscriptions (state_of (insert_subscriber ws jobId w))"
proof (cases "\<not> isAuthenticated (h ws) \<or> \<not> truthy (userId (h ws))")
  case True
  then show ?thesis by (simp add: subscription_body_def ws_send_subscriptions)
next
  case auth: False
  show ?thesis
  proof (cases "getJob (storage w) jobId")
    case (Inl e)
    then show ?thesis using auth by (simp add: subscription_body_def)
  next
    case (Inr found)
    show ?thesis
    proof (cases found)
      case None
      then show ?thesis using auth Inr by (simp add: subscription_body_def ws_send_subscriptions)
    next
      case (Some job)
      show ?thesis
      proof (cases "Some (job_userId job) \<noteq> userId (h ws)")
        case True
        then show ?thesis using auth Inr Some by (simp add: subscription_body_def ws_send_subscriptions)
      next
        case False
        from insert_subscriber_result[of ws jobId w] obtain w1 where
          w1: "insert_subscriber ws jobId w = Normal w1" by (elim exE conjE)
        define m where "m = Subscribed jobId ''Successfully subscribed to job updates''"
        have body: "subscription_body h ws jobId w =
            and_then (ws_send h ws m w1) (\<lambda>w2.
              case getDocument (storage w2) (job_documentId job) of
                Inl e \<Rightarrow> Thrown e w2
              | Inr document \<Rightarrow> ws_send h ws (Progress (currentStatus job)) w2)"
          using auth Inr Some False w1 by (simp add: subscription_body_def m_def)
        have "subscriptions (state_of (subscription_body h ws jobId w)) = subscriptions w1"
        proof (cases "sendThrows (h ws)")
          case (Some x)
          then show ?thesis unfolding body by (simp add: ws_send_def)
        next
          case None
          then have s: "ws_send h ws m w1 = Normal (w1\<lparr>trace := trace w1 @ [Send ws m]\<rparr>)"
            by (simp add: ws_send_def)
          show ?thesis unfolding body s
            by (cases "getDocument (storage (w1\<lparr>trace := trace w1 @ [Send ws m]\<rparr>)) (job_documentId job)")
               (simp_all add: ws_send_subscriptions)
        qed
        then show ?thesis using w1 by simp
      qed
    qed
  qed
qed

lemma handleSubscription_subscriptions:
  "subscriptions (state_of (handleSubscription h ws jobId w))
     = subscriptions (state_of (subscription_body h ws jobId w))"
  by (cases "subscription_body h ws jobId w")
     (simp_all add: handleSubscription_def ws_send_subscriptions)

lemma no_empty_sets_handleSubscription:
  assumes "no_empty_sets (subscriptions w)"
  shows "no_empty_sets (subscriptions (state_of (handleSubscription h ws jobId w)))"
  using subscription_body_subscriptions[of h ws jobId w] assms no_empty_sets_insert[OF assms, of ws jobId]
  by (auto simp: handleSubscription_subscriptions)

lemma unsubscription_body_map:
  "map_of (subscriptions (state_of (unsubscription_body h ws jobId w))) = map_of (subscriptions w)
   \<or> map_of (subscriptions (state_of (unsubscription_body h ws jobId w)))
       = (map_of (subscriptions w))(jobId := drop_connection ws (map_of (subscriptions w)) jobId)"
proof (cases "\<not> isAuthenticated (h ws) \<or> \<not> truthy (userId (h ws))")
  case True
  then show ?thesis by (simp add: unsubscription_body_def ws_send_subscriptions)
next
  case False
  show ?thesis
  proof (cases "map_of (subscriptions w) jobId")
    case None
    then show ?thesis using False by (simp add: unsubscription_body_def ws_send_subscriptions)
  next
    case (Some cs)
    then show ?thesis using False
      by (simp add: unsubscription_body_def ws_send_subscriptions set_delete_def drop_connection_def
            update_conv' delete_conv')
  qed
qed

lemma handleUnsubscription_subscriptions:
  "subscriptions (state_of (handleUnsubscription h ws jobId w))
     = subscriptions (state_of (unsubscription_body h ws jobId w))"
  by (cases "unsubscription_body h ws jobId w")
     (simp_all add: handleUnsubscription_def ws_send_subscriptions)

lemma no_empty_sets_drop:
  "no_empty_sets reg \<Longrightarrow> map_of reg' = (map_of reg)(k := drop_connection ws (map_of reg) k)
     \<Longrightarrow> no_empty_sets reg'"
  by (auto simp: no_empty_sets_def drop_connection_def split: option.splits if_splits)

lemma no_empty_sets_map: "map_of reg' = map_of reg \<Longrightarrow> no_empty_sets reg \<Longrightarrow> no_empty_sets reg'"
  by (simp add: no_empty_sets_def)

lemma no_empty_sets_handleUnsubscription:
  assumes "no_empty_sets (subscriptions w)"
  shows "no_empty_sets (subscriptions (state_of (handleUnsubscription h ws jobId w)))"
  using unsubscription_body_map[of h ws jobId w] assms
  unfolding handleUnsubscription_subscriptions
  by (elim disjE) (erule no_empty_sets_map, assumption, erule no_empty_sets_drop, assumption)

lemma no_empty_sets_cleanup:
  "no_empty_sets (subscriptions (state_of (cleanupSubscriptions ws w)))"
proof -
  from cleanup_characterised[of ws w] obtain w' where
    w': "cleanupSubscriptions ws w = Normal w'"
        "map_of (subscriptions w') = drop_connection ws (map_of (subscriptions w))"
    by (elim exE conjE)
  show ?thesis
    by (auto simp: w' no_empty_sets_def drop_connection_def split: option.splits if_splits)
qed

lemma no_empty_sets_broadcast:
  assumes "no_empty_sets (subscriptions w)"
  shows "no_empty_sets (subscriptions (state_of (broadcastProgress h jobId p w)))"
proof -
  from broadcast_characterised[of h jobId p w] obtain w' where
    w': "broadcastProgress h jobId p w = Normal w'"
        "map_of (subscriptions w) jobId = None \<longrightarrow> w' = w"
        "\<forall>cs. map_of (subscriptions w) jobId = Some cs \<and> cs \<noteq> [] \<longrightarrow>
            map_of (subscriptions w') =
              (map_of (subscriptions w))(jobId :=
                 (if filter (deliverable h) cs = [] then None else Some (filter (deliverable h) cs)))"
    by (elim exE conjE)
  show ?thesis
  proof (cases "map_of (subscriptions w) jobId")
    case None
    then show ?thesis using w' assms by simp
  next
    case (Some cs)
    then have ne: "cs \<noteq> []" using assms by (simp add: no_empty_sets_def)
    have m: "map_of (subscriptions w') =
              (map_of (subscriptions w))(jobId :=
                 (if filter (deliverable h) cs = [] then None else Some (filter (deliverable h) cs)))"
      by (rule w'(3)[rule_format]) (simp add: Some ne)
    show ?thesis using assms by (auto simp: w'(1) m no_empty_sets_def)
  qed
qed

section \<open>Properties of the pipeline\<close>

subsection \<open>updateJobProgress\<close>

lemma updateJobProgress_db_error:
  assumes "dbFailure (storage w) (UpdateJob jobId) = Some x"
  shows "updateJobProgress h jobId progress currentStep error w = Normal w"
  using assms by (simp add: updateJobProgress_def updateJob_def)

lemma updateJobProgress_persists:
  assumes "dbFailure (storage w) (UpdateJob jobId) = None"
  shows "\<exists>w'. updateJobProgress h jobId progress currentStep error w = Normal w'
     \<and> storage w' = (storage w)\<lparr>jobs :=
           (case jobs (storage w) jobId of
              None \<Rightarrow> jobs (storage w)
            | Some j \<Rightarrow> (jobs (storage w))(jobId \<mapsto> apply_update (progress_update progress currentStep error) j))\<rparr>
     \<and> trace w' = trace w @ Persisted jobId (progress_update progress currentStep error)
           # map (\<lambda>c. Send c (Progress (progress_event jobId progress currentStep error)))
               (filter (is_open h) (subscribers_of (subscriptions w) jobId))"
proof -
  define st' where "st' = (storage w)\<lparr>jobs :=
           (case jobs (storage w) jobId of
              None \<Rightarrow> jobs (storage w)
            | Some j \<Rightarrow> (jobs (storage w))(jobId \<mapsto> apply_update (progress_update progress currentStep error) j))\<rparr>"
  define w0 where "w0 = w\<lparr>storage := st', trace := trace w @ [Persisted jobId (progress_update progress currentStep error)]\<rparr>"
  have upd: "\<exists>row. updateJob (storage w) jobId (progress_update progress currentStep error) = Inr (st', row)"
    using assms by (cases "jobs (storage w) jobId") (simp_all add: updateJob_def st'_def)
  then obtain row where row: "updateJob (storage w) jobId (progress_update progress currentStep error) = Inr (st', row)"
    by (elim exE)
  from broadcast_characterised[of h jobId "progress_event jobId progress currentStep error" w0]
  obtain w' where
    w': "broadcastProgress h jobId (progress_event jobId progress currentStep error) w0 = Normal w'"
        "storage w' = storage w0"
        "trace w' = trace w0 @ map (\<lambda>c. Send c (Progress (progress_event jobId progress currentStep error)))
                               (filter (is_open h) (subscribers_of (subscriptions w0) jobId))"
    by (elim exE conjE)
  have "updateJobProgress h jobId progress currentStep error w = Normal w'"
    using row w'(1)
    by (simp add: updateJobProgress_def progress_update_def progress_event_def w0_def)
  moreover have "storage w' = st'" using w'(2) by (simp add: w0_def)
  moreover have "trace w' = trace w @ Persisted jobId (progress_update progress currentStep error)
           # map (\<lambda>c. Send c (Progress (progress_event jobId progress currentStep error)))
               (filter (is_open h) (subscribers_of (subscriptions w) jobId))"
    using w'(3) by (simp add: w0_def)
  ultimately show ?thesis unfolding st'_def by (intro exI[of _ w'] conjI)
qed

text \<open>
  Claim C5. For a job that is in the store, \<open>updateJobProgress\<close> returns. When the
  store update throws, nothing is written and nothing is broadcast. Otherwise the write
  to the store comes first and the progress events follow it, one to each open
  subscriber, and the stored job then has the status, progress, step and error of the
  event.
\<close>

theorem updateJobProgress_persist_then_broadcast:
  assumes "jobs (storage w) jobId = Some j"
  shows "\<exists>w'. updateJobProgress h jobId progress currentStep error w = Normal w'
     \<and> (dbFailure (storage w) (UpdateJob jobId) \<noteq> None \<longrightarrow> w' = w)
     \<and> (dbFailure (storage w) (UpdateJob jobId) = None \<longrightarrow>
          trace w' = trace w @ Persisted jobId (progress_update progress currentStep error)
             # map (\<lambda>c. Send c (Progress (progress_event jobId progress currentStep error)))
                 (filter (is_open h) (subscribers_of (subscriptions w) jobId))
        \<and> (\<exists>j'. jobs (storage w') jobId = Some j'
              \<and> job_status j' = Some (pm_status (progress_event jobId progress currentStep error))
              \<and> job_progress j' = Some (pm_progress (progress_event jobId progress currentStep error))
              \<and> job_currentStep j' = pm_currentStep (progress_event jobId progress currentStep error)
              \<and> job_errorMessage j' = pm_errorMessage (progress_event jobId progress currentStep error)))"
proof (cases "dbFailure (storage w) (UpdateJob jobId)")
  case (Some x)
  then have "updateJobProgress h jobId progress currentStep error w = Normal w"
    by (rule updateJobProgress_db_error)
  then show ?thesis using Some by simp
next
  case None
  from updateJobProgress_persists[OF None, of h progress currentStep error] obtain w' where
    w': "updateJobProgress h jobId progress currentStep error w = Normal w'"
        "storage w' = (storage w)\<lparr>jobs :=
           (case jobs (storage w) jobId of
              None \<Rightarrow> jobs (storage w)
            | Some j \<Rightarrow> (jobs (storage w))(jobId \<mapsto> apply_update (progress_update progress currentStep error) j))\<rparr>"
        "trace w' = trace w @ Persisted jobId (progress_update progress currentStep error)
           # map (\<lambda>c. Send c (Progress (progress_event jobId progress currentStep error)))
               (filter (is_open h) (subscribers_of (subscriptions w) jobId))"
    by (elim exE conjE)
  have stored: "jobs (storage w') jobId = Some (apply_update (progress_update progress currentStep error) j)"
    using assms by (simp add: w'(2))
  have fields: "job_status (apply_update (progress_update progress currentStep error) j)
                  = Some (pm_status (progress_event jobId progress currentStep error))
      \<and> job_progress (apply_update (progress_update progress currentStep error) j)
                  = Some (pm_progress (progress_event jobId progress currentStep error))
      \<and> job_currentStep (apply_update (progress_update progress currentStep error) j)
                  = pm_currentStep (progress_event jobId progress currentStep error)
      \<and> job_errorMessage (apply_update (progress_update progress currentStep error) j)
                  = pm_errorMessage (progress_event jobId progress currentStep error)"
    by (simp add: apply_update_def progress_update_def progress_event_def)
  show ?thesis
    using None w'(1) w'(3) stored fields by simp
qed

theorem updateJobProgress_persist_then_broadcast_witness:
  "\<exists>w'. updateJobProgress example_heap 7 80 ''Generating document...'' None crowd = Normal w'
     \<and> trace w' = [Persisted 7 \<lparr>upd_progress = 80, upd_currentStep = ''Generating document...'',
                        upd_errorMessage = None, upd_status = PROCESSING\<rparr>,
          Send 1 (Progress \<lparr>pm_jobId = 7, pm_status = PROCESSING, pm_progress = 80,
                             pm_currentStep = Some ''Generating document...'',
                             pm_errorMessage = None\<rparr>),
          Send 3 (Progress \<lparr>pm_jobId = 7, pm_status = PROCESSING, pm_progress = 80,
                             pm_currentStep = Some ''Generating document...'',
                             pm_errorMessage = None\<rparr>)]
     \<and> (\<exists>j'. jobs (storage w') 7 = Some j' \<and> job_status j' = Some PROCESSING
            \<and> job_progress j' = Some 80 \<and> job_currentStep j' = Some ''Generating document...''
            \<and> job_errorMessage j' = None)"
  using updateJobProgress_persist_then_broadcast [of crowd 7 job7 example_heap 80 "''Generating document...''" None]
  by (simp add: example_defs progress_update_def progress_event_def status_for_def or_null_def
       is_open_def subscribers_of_def)

text \<open>
  Claim C6, as stated, fails: \<open>updateJobProgress\<close> does not look at the stored status.
  Called for a job that is \<open>COMPLETED\<close>, it overwrites the stored state and broadcasts.
\<close>

theorem update_after_terminal_counterexample:
  "jobs (storage finished_world) 7 = Some job7_done
   \<and> job_status job7_done = Some COMPLETED
   \<and> jobs (storage (state_of (updateJobProgress example_heap 7 0 ''Processing failed'' (Some ''boom'') finished_world))) 7
       = Some (job7_done\<lparr>job_status := Some FAILED, job_progress := Some 0,
                          job_currentStep := Some ''Processing failed'',
                          job_errorMessage := Some ''boom''\<rparr>)
   \<and> trace (state_of (updateJobProgress example_heap 7 0 ''Processing failed'' (Some ''boom'') finished_world))
       = [Persisted 7 \<lparr>upd_progress = 0, upd_currentStep = ''Processing failed'',
                        upd_errorMessage = Some ''boom'', upd_status = FAILED\<rparr>,
          Send 1 (Progress \<lparr>pm_jobId = 7, pm_status = FAILED, pm_progress = 0,
                             pm_currentStep = Some ''Processing failed'',
                             pm_errorMessage = Some ''boom''\<rparr>)]"
  by (simp add: finished_world_def job7_done_def doc70_def example_defs updateJobProgress_def
      updateJob_def apply_update_def status_for_def or_null_def broadcastProgress_def
      deliver_def ws_send_def set_delete_def)

subsection \<open>processVideo\<close>

lemma persisted_statuses_append:
  "persisted_statuses (xs @ ys) = persisted_statuses xs @ persisted_statuses ys"
  by (induction xs rule: persisted_statuses.induct) simp_all

lemma persisted_statuses_sends: "persisted_statuses (map (\<lambda>c. Send c m) cs) = []"
  by (induction cs) simp_all

lemma updateJobProgress_statuses:
  "\<exists>w'. updateJobProgress h jobId progress currentStep error w = Normal w'
     \<and> dbFailure (storage w') = dbFailure (storage w)
     \<and> persisted_statuses (trace w') = persisted_statuses (trace w) @
          (if dbFailure (storage w) (UpdateJob jobId) = None then [status_for progress error] else [])"
proof (cases "dbFailure (storage w) (UpdateJob jobId)")
  case (Some x)
  then have "updateJobProgress h jobId progress currentStep error w = Normal w"
    by (rule updateJobProgress_db_error)
  then show ?thesis using Some by simp
next
  case None
  from updateJobProgress_persists[OF None, of h progress currentStep error] obtain w' where
    w': "updateJobProgress h jobId progress currentStep error w = Normal w'"
        "storage w' = (storage w)\<lparr>jobs :=
           (case jobs (storage w) jobId of
              None \<Rightarrow> jobs (storage w)
            | Some j \<Rightarrow> (jobs (storage w))(jobId \<mapsto> apply_update (progress_update progress currentStep error) j))\<rparr>"
        "trace w' = trace w @ Persisted jobId (progress_update progress currentStep error)
           # map (\<lambda>c. Send c (Progress (progress_event jobId progress currentStep error)))
               (filter (is_open h) (subscribers_of (subscriptions w) jobId))"
    by (elim exE conjE)
  have "dbFailure (storage w') = dbFailure (storage w)" by (simp add: w'(2))
  moreover have "persisted_statuses (trace w') = persisted_statuses (trace w) @ [status_for progress error]"
    by (simp add: w'(3) persisted_statuses_append persisted_statuses_sends progress_update_def)
  ultimately show ?thesis using w'(1) None by simp
qed

lemma quiet_refl: "quiet_extension w w"
  by (simp add: quiet_extension_def)

lemma quiet_storage:
  "quiet_extension w w1 \<Longrightarrow> dbFailure st = dbFailure (storage w1) \<Longrightarrow> quiet_extension w (w1\<lparr>storage := st\<rparr>)"
  by (simp add: quiet_extension_def)

lemma quiet_closing: "quiet_extension w w' \<Longrightarrow> closing_extension w w'"
proof -
  assume "quiet_extension w w'"
  then obtain sts where "persisted_statuses (trace w') = persisted_statuses (trace w) @ sts"
    "set sts \<subseteq> {PROCESSING}" unfolding quiet_extension_def by (elim exE conjE)
  then have "persisted_statuses (trace w') = persisted_statuses (trace w) @ sts @ []
      \<and> set sts \<subseteq> {PROCESSING} \<and> length ([]::job_status list) \<le> 1" by simp
  then show ?thesis unfolding closing_extension_def by (intro exI)
qed

lemma quiet_update:
  assumes "quiet_extension w w0" and "status_for progress error = PROCESSING"
  shows "\<exists>w1. updateJobProgress h jobId progress currentStep error w0 = Normal w1 \<and> quiet_extension w w1"
proof -
  from assms(1) obtain sts where sts: "dbFailure (storage w0) = dbFailure (storage w)"
    "persisted_statuses (trace w0) = persisted_statuses (trace w) @ sts" "set sts \<subseteq> {PROCESSING}"
    unfolding quiet_extension_def by (elim exE conjE)
  from updateJobProgress_statuses[of h jobId progress currentStep error w0] obtain w1 where
    w1: "updateJobProgress h jobId progress currentStep error w0 = Normal w1"
        "dbFailure (storage w1) = dbFailure (storage w0)"
        "persisted_statuses (trace w1) = persisted_statuses (trace w0) @
          (if dbFailure (storage w0) (UpdateJob jobId) = None then [status_for progress error] else [])"
    by (elim exE conjE)
  define more where "more = (if dbFailure (storage w0) (UpdateJob jobId) = None then [PROCESSING] else [])"
  have "persisted_statuses (trace w1) = persisted_statuses (trace w) @ (sts @ more)"
    using w1(3) sts(2) assms(2) by (simp add: more_def)
  moreover have "set (sts @ more) \<subseteq> {PROCESSING}" using sts(3) by (auto simp: more_def)
  ultimately have "\<exists>s. persisted_statuses (trace w1) = persisted_statuses (trace w) @ s \<and> set s \<subseteq> {PROCESSING}"
    by (intro exI[of _ "sts @ more"] conjI)
  then have "quiet_extension w w1" using w1(2) sts(1) by (simp add: quiet_extension_def)
  then show ?thesis using w1(1) by (intro exI[of _ w1] conjI)
qed

lemma closing_update:
  assumes "quiet_extension w w0"
  shows "\<exists>w1. updateJobProgress h jobId progress currentStep error w0 = Normal w1 \<and> closing_extension w w1"
proof -
  from assms(1) obtain sts where sts: "dbFailure (storage w0) = dbFailure (storage w)"
    "persisted_statuses (trace w0) = persisted_statuses (trace w) @ sts" "set sts \<subseteq> {PROCESSING}"
    unfolding quiet_extension_def by (elim exE conjE)
  from updateJobProgress_statuses[of h jobId progress currentStep error w0] obtain w1 where
    w1: "updateJobProgress h jobId progress currentStep error w0 = Normal w1"
        "persisted_statuses (trace w1) = persisted_statuses (trace w0) @
          (if dbFailure (storage w0) (UpdateJob jobId) = None then [status_for progress error] else [])"
    by (elim exE conjE)
  define final where "final = (if dbFailure (storage w0) (UpdateJob jobId) = None then [status_for progress error] else [])"
  have "persisted_statuses (trace w1) = persisted_statuses (trace w) @ sts @ final"
    using w1(2) sts(2) by (simp add: final_def)
  moreover have "length final \<le> 1" by (simp add: final_def)
  ultimately have "persisted_statuses (trace w1) = persisted_statuses (trace w) @ sts @ final
      \<and> set sts \<subseteq> {PROCESSING} \<and> length final \<le> 1" using sts(3) by simp
  then have "closing_extension w w1" unfolding closing_extension_def by (intro exI)
  then show ?thesis using w1(1) by (intro exI[of _ w1] conjI)
qed

lemma outcome_thrown: "quiet_extension w w1 \<Longrightarrow> pipeline_outcome w (Thrown x w1)"
  by (simp add: pipeline_outcome_def)

lemma outcome_awaiting:
  assumes "quiet_extension w w1" and "\<And>v. r = Inr v \<Longrightarrow> pipeline_outcome w (k v)"
  shows "pipeline_outcome w (awaiting r w1 k)"
proof (cases r)
  case (Inl e)
  then show ?thesis using assms(1) by (simp add: outcome_thrown)
next
  case (Inr v)
  then show ?thesis using assms(2) by simp
qed

lemma outcome_update:
  assumes "quiet_extension w w0" and "status_for progress error = PROCESSING"
    and "\<And>w1. quiet_extension w w1 \<Longrightarrow> pipeline_outcome w (k w1)"
  shows "pipeline_outcome w (and_then (updateJobProgress h jobId progress currentStep error w0) k)"
proof -
  from quiet_update[OF assms(1,2), of h jobId currentStep] obtain w1 where
    "updateJobProgress h jobId progress currentStep error w0 = Normal w1" "quiet_extension w w1"
    by (elim exE conjE)
  then show ?thesis using assms(3) by simp
qed

lemma outcome_last_update:
  assumes "quiet_extension w w0"
  shows "pipeline_outcome w (updateJobProgress h jobId progress currentStep error w0)"
proof -
  from closing_update[OF assms, of h jobId progress currentStep error] obtain w1 where
    "updateJobProgress h jobId progress currentStep error w0 = Normal w1" "closing_extension w w1"
    by (elim exE conjE)
  then show ?thesis by (simp add: pipeline_outcome_def)
qed

lemma updateDocument_dbFailure: "updateDocument st i f = Inr st' \<Longrightarrow> dbFailure st' = dbFailure st"
  by (auto simp: updateDocument_def split: option.splits)

lemma upsertUser_dbFailure: "upsertUser st u = Inr st' \<Longrightarrow> dbFailure st' = dbFailure st"
  by (auto simp: upsertUser_def split: option.splits)

lemma processing_status: "p \<noteq> 100 \<Longrightarrow> status_for p None = PROCESSING"
  by (simp add: status_for_def)


lemma pipeline_statuses: "pipeline_outcome w (pipeline sv h d w)"
  unfolding pipeline_def
  apply (rule outcome_update[OF quiet_refl])
   apply (simp add: processing_status)
  apply (rule outcome_awaiting, assumption)
  apply (rule outcome_awaiting, assumption)
  apply (rule outcome_awaiting, assumption)
  apply (simp split: option.split)
  apply (intro conjI impI allI)
     apply (erule outcome_thrown)
    apply (erule outcome_thrown)
   apply (rule outcome_update, assumption)
    apply (simp add: processing_status)
   apply (rule outcome_awaiting, assumption)
   apply (simp)
   apply (intro conjI impI)
    apply (erule outcome_thrown)
   apply (rule outcome_update, assumption)
    apply (simp add: processing_status)
   apply (rule outcome_awaiting, assumption)
   apply (rule outcome_update, assumption)
    apply (simp add: processing_status)
   apply (rule outcome_awaiting, assumption)
   apply (rule outcome_update, assumption)
    apply (simp add: processing_status)
   apply (rule outcome_awaiting, assumption)
   apply (rule outcome_awaiting, assumption)
   apply (rule outcome_awaiting)
    apply (erule quiet_storage)
    apply (erule updateDocument_dbFailure)
   apply (rule outcome_last_update)
   apply (rule quiet_storage, assumption)
   apply (simp add: updateDocument_dbFailure upsertUser_dbFailure)
  done


lemma processVideo_closing: "closing_extension w (state_of (processVideo sv h d w))"
proof (cases "pipeline sv h d w")
  case (Normal w')
  with pipeline_statuses[of w sv h d] show ?thesis
    by (simp add: processVideo_def pipeline_outcome_def)
next
  case (Thrown x w')
  with pipeline_statuses[of w sv h d] have q: "quiet_extension w w'"
    by (simp add: pipeline_outcome_def)
  show ?thesis
  proof (cases "updateDocument (storage w') (pjd_documentId d) (\<lambda>row. row\<lparr>doc_status := Some DOC_FAILED\<rparr>)")
    case (Inl e)
    then show ?thesis using Thrown q by (simp add: processVideo_def quiet_closing)
  next
    case (Inr st')
    have "quiet_extension w (w'\<lparr>storage := st'\<rparr>)"
      using q Inr by (intro quiet_storage) (simp_all add: updateDocument_dbFailure)
    from closing_update[OF this, of h "pjd_jobId d" 0 "''Processing failed''" x] obtain w1 where
      "updateJobProgress h (pjd_jobId d) 0 ''Processing failed'' x (w'\<lparr>storage := st'\<rparr>) = Normal w1"
      "closing_extension w w1" by (elim exE conjE)
    then show ?thesis using Thrown Inr by (simp add: processVideo_def)
  qed
qed

text \<open>
  Claim C6, amended. \<open>updateJobProgress\<close> accepts every transition it is given; it is
  the pipeline that stops at a terminal status. In one run of \<open>processVideo\<close>, whatever
  the services and the database do, every status written to the store before the last
  one is \<open>PROCESSING\<close>: a write of \<open>COMPLETED\<close> or \<open>FAILED\<close> is the last write of the run.
\<close>

theorem processVideo_terminal_status_is_last:
  "\<exists>sts. persisted_statuses (trace (state_of (processVideo sv h d w)))
            = persisted_statuses (trace w) @ sts
        \<and> set (butlast sts) \<subseteq> {PROCESSING}"
proof -
  from processVideo_closing[of w sv h d] obtain sts final where
    c: "persisted_statuses (trace (state_of (processVideo sv h d w)))
          = persisted_statuses (trace w) @ sts @ final"
       "set sts \<subseteq> {PROCESSING}" "length final \<le> 1"
    unfolding closing_extension_def by (elim exE conjE)
  have "set (butlast (sts @ final)) \<subseteq> {PROCESSING}"
  proof (cases final)
    case Nil
    then show ?thesis using c(2) in_set_butlastD by fastforce
  next
    case (Cons a rest)
    then have "rest = []" using c(3) by simp
    then show ?thesis using Cons c(2) by (simp add: butlast_append)
  qed
  then show ?thesis using c(1) by (intro exI[of _ "sts @ final"] conjI)
qed

theorem processVideo_terminal_status_is_last_witness:
  "persisted_statuses (trace (state_of (processVideo example_services example_heap example_job_data pipeline_world)))
     = [PROCESSING, PROCESSING, PROCESSING, FAILED]"
  using processVideo_terminal_status_is_last [of example_services example_heap example_job_data pipeline_world]
  by (simp add: processVideo_def pipeline_def example_services_def example_job_data_def pipeline_world_def
       example_defs updateJobProgress_def updateJob_def apply_update_def status_for_def or_null_def
       broadcastProgress_def deliver_def ws_send_def set_delete_def getUser_def updateDocument_def)

section \<open>Properties of the session validation\<close>

lemma authenticate_accepts:
  assumes "authenticateConnection env ws cookieHeader = (True, ws')"
  shows "\<exists>uid sid. session_accepted env cookieHeader uid sid
           \<and> ws' = ws\<lparr>isAuthenticated := True, userId := Some uid, sessionId := Some sid\<rparr>"
proof -
  obtain sessionCookie where c: "parseCookies (cookie_header cookieHeader) ''connect.sid'' = Some sessionCookie"
    using assms by (cases "parseCookies (cookie_header cookieHeader) ''connect.sid''")
      (simp_all add: authenticateConnection_def cookie_header_def)
  have c1: "sessionCookie \<noteq> []"
    using assms c by (auto simp: authenticateConnection_def cookie_header_def)
  obtain sid where s: "decodeSessionId (decodeURIComponent env) sessionCookie = Some sid"
    using assms c c1 by (cases "decodeSessionId (decodeURIComponent env) sessionCookie")
      (simp_all add: authenticateConnection_def cookie_header_def)
  have s1: "sid \<noteq> []"
    using assms c c1 s by (auto simp: authenticateConnection_def cookie_header_def)
  obtain sessionData where d: "sessionStore env sid = Reply_session (Some sessionData)"
    using assms c c1 s s1
    by (cases "sessionStore env sid")
       (auto simp: authenticateConnection_def cookie_header_def getSessionData_def split: option.splits)
  obtain u where u: "session_principal sessionData = Some u"
    using assms c c1 s s1 d by (cases "session_principal sessionData")
      (simp_all add: authenticateConnection_def cookie_header_def getSessionData_def)
  obtain cl where cl: "user_claims u = Some cl"
    using assms c c1 s s1 d u by (cases "user_claims u")
      (simp_all add: authenticateConnection_def cookie_header_def getSessionData_def)
  have rest: "truthy (sub cl) \<and> \<not> session_expired (nowMs env div 1000) u
      \<and> ws' = ws\<lparr>isAuthenticated := True, userId := sub cl, sessionId := Some sid\<rparr>"
    using assms c c1 s s1 d u cl
    by (simp add: authenticateConnection_def cookie_header_def getSessionData_def split: if_splits)
  then obtain uid where uid: "sub cl = Some uid" "uid \<noteq> []"
    by (cases "sub cl") simp_all
  have e: "expires_at u = None \<or> expires_at u = Some 0
           \<or> (\<exists>e. expires_at u = Some e \<and> nowMs env div 1000 \<le> e)"
    using rest by (cases "expires_at u") (auto simp: session_expired_def)
  have "session_accepted env cookieHeader uid sid"
    unfolding session_accepted_def using c c1 s s1 d u cl uid e by blast
  moreover have "ws' = ws\<lparr>isAuthenticated := True, userId := Some uid, sessionId := Some sid\<rparr>"
    using rest uid by simp
  ultimately show ?thesis by blast
qed

lemma authenticate_rejects_unchanged:
  "authenticateConnection env ws cookieHeader = (False, ws') \<Longrightarrow> ws' = ws"
  by (auto simp: authenticateConnection_def split: option.splits if_splits sum.splits)

lemma accepted_authenticates:
  assumes "session_accepted env cookieHeader uid sid"
  shows "authenticateConnection env ws cookieHeader
           = (True, ws\<lparr>isAuthenticated := True, userId := Some uid, sessionId := Some sid\<rparr>)"
proof -
  from assms obtain sessionCookie sessionData u cl where
    f: "parseCookies (cookie_header cookieHeader) ''connect.sid'' = Some sessionCookie"
       "sessionCookie \<noteq> []"
       "decodeSessionId (decodeURIComponent env) sessionCookie = Some sid"
       "sid \<noteq> []"
       "sessionStore env sid = Reply_session (Some sessionData)"
       "session_principal sessionData = Some u"
       "user_claims u = Some cl"
       "sub cl = Some uid" "uid \<noteq> []"
       "expires_at u = None \<or> expires_at u = Some 0
           \<or> (\<exists>e. expires_at u = Some e \<and> nowMs env div 1000 \<le> e)"
    unfolding session_accepted_def by (elim exE conjE)
  have "\<not> session_expired (nowMs env div 1000) u"
    using f(10) by (auto simp: session_expired_def)
  then show ?thesis using f(1-9)
    by (simp add: authenticateConnection_def cookie_header_def getSessionData_def)
qed

lemma parse_abc: "parseCookies ''theme=dark; connect.sid=s:abc.c2ln'' ''connect.sid'' = Some ''s:abc.c2ln''"
  by (simp add: parseCookies_def parse_cookie_def trim_def is_js_space_def)

lemma parse_old: "parseCookies ''connect.sid=s:old.sig'' ''connect.sid'' = Some ''s:old.sig''"
  by (simp add: parseCookies_def parse_cookie_def trim_def is_js_space_def)

lemma parse_err: "parseCookies ''connect.sid=s:err.sig'' ''connect.sid'' = Some ''s:err.sig''"
  by (simp add: parseCookies_def parse_cookie_def trim_def is_js_space_def)

lemma parse_empty: "parseCookies [] ''connect.sid'' = None"
  by (simp add: parseCookies_def)

lemma decode_abc: "decodeSessionId Some ''s:abc.c2ln'' = Some ''abc''"
  by (simp add: decodeSessionId_def lastIndexOf_def)

lemma decode_old: "decodeSessionId Some ''s:old.sig'' = Some ''old''"
  by (simp add: decodeSessionId_def lastIndexOf_def)

lemma decode_err: "decodeSessionId Some ''s:err.sig'' = Some ''err''"
  by (simp add: decodeSessionId_def lastIndexOf_def)

text \<open>
  Claim C7. The code does not keep it. The check under the comment
  \<open>Check if session is expired\<close> is \<open>user.expires_at && now > user.expires_at\<close>, and
  \<open>0\<close> is falsy: a principal whose expiry time stamp is present and is \<open>0\<close>, long in
  the past, is accepted, while any other expiry in the past, a negative one too, is
  rejected.
\<close>

theorem authenticateConnection_accepts_zero_expiry:
  "session_principal zero_expiry_session
     = Some \<lparr>user_claims = Some \<lparr>sub = Some ''alice''\<rparr>, expires_at = Some 0\<rparr>
   \<and> 0 < nowMs example_env div 1000
   \<and> authenticateConnection example_env fresh_ws (Some ''connect.sid=s:old.sig'')
       = (True, fresh_ws\<lparr>isAuthenticated := True, userId := Some ''alice'', sessionId := Some ''old''\<rparr>)"
  by (simp add: authenticateConnection_def parse_old decode_old example_env_def zero_expiry_session_def
      getSessionData_def session_principal_def session_expired_def)

text \<open>
  What the code does, in full. \<open>authenticateConnection\<close> answers \<open>true\<close> exactly when the cookie
  header gives a non-empty session cookie that decodes to a non-empty session
  identifier, the session store calls back with a session for it, the session holds a
  principal with a non-empty user id, and the principal's expiry, when present and not
  zero, is not in the past; the connection then carries that user id and session
  identifier. In every other case the answer is \<open>false\<close> and the connection is left as
  it was; a session store that calls back with an error is such a case.
\<close>

theorem authenticateConnection_fail_closed:
  "(fst (authenticateConnection env ws cookieHeader)
      = (\<exists>uid sid. session_accepted env cookieHeader uid sid))
   \<and> (\<forall>uid sid. session_accepted env cookieHeader uid sid \<longrightarrow>
         authenticateConnection env ws cookieHeader
           = (True, ws\<lparr>isAuthenticated := True, userId := Some uid, sessionId := Some sid\<rparr>))
   \<and> (\<not> fst (authenticateConnection env ws cookieHeader) \<longrightarrow>
         snd (authenticateConnection env ws cookieHeader) = ws)
   \<and> (\<forall>sessionCookie sid.
         parseCookies (cookie_header cookieHeader) ''connect.sid'' = Some sessionCookie
       \<and> decodeSessionId (decodeURIComponent env) sessionCookie = Some sid
       \<and> sessionStore env sid = Reply_error \<longrightarrow>
         \<not> fst (authenticateConnection env ws cookieHeader))"
proof -
  obtain ok ws' where r: "authenticateConnection env ws cookieHeader = (ok, ws')"
    by (cases "authenticateConnection env ws cookieHeader")
  have fwd: "ok \<Longrightarrow> \<exists>uid sid. session_accepted env cookieHeader uid sid"
  proof -
    assume ok
    with r have "authenticateConnection env ws cookieHeader = (True, ws')" by simp
    from authenticate_accepts[OF this] show ?thesis by blast
  qed
  have bwd: "\<forall>uid sid. session_accepted env cookieHeader uid sid \<longrightarrow>
         authenticateConnection env ws cookieHeader
           = (True, ws\<lparr>isAuthenticated := True, userId := Some uid, sessionId := Some sid\<rparr>)"
    by (intro allI impI) (rule accepted_authenticates)
  have iff: "fst (authenticateConnection env ws cookieHeader)
      = (\<exists>uid sid. session_accepted env cookieHeader uid sid)"
  proof
    assume "fst (authenticateConnection env ws cookieHeader)"
    then show "\<exists>uid sid. session_accepted env cookieHeader uid sid" using r fwd by simp
  next
    assume "\<exists>uid sid. session_accepted env cookieHeader uid sid"
    then obtain uid sid where "session_accepted env cookieHeader uid sid" by (elim exE)
    then show "fst (authenticateConnection env ws cookieHeader)"
      by (simp add: accepted_authenticates)
  qed
  have rej: "\<not> fst (authenticateConnection env ws cookieHeader) \<longrightarrow>
         snd (authenticateConnection env ws cookieHeader) = ws"
  proof
    assume "\<not> fst (authenticateConnection env ws cookieHeader)"
    with r have "authenticateConnection env ws cookieHeader = (False, ws')" by simp
    from authenticate_rejects_unchanged[OF this] show "snd (authenticateConnection env ws cookieHeader) = ws"
      using r by simp
  qed
  have err: "\<forall>sessionCookie sid.
         parseCookies (cookie_header cookieHeader) ''connect.sid'' = Some sessionCookie
       \<and> decodeSessionId (decodeURIComponent env) sessionCookie = Some sid
       \<and> sessionStore env sid = Reply_error \<longrightarrow>
         \<not> fst (authenticateConnection env ws cookieHeader)"
  proof (intro allI impI)
    fix sessionCookie sid
    assume a: "parseCookies (cookie_header cookieHeader) ''connect.sid'' = Some sessionCookie
       \<and> decodeSessionId (decodeURIComponent env) sessionCookie = Some sid
       \<and> sessionStore env sid = Reply_error"
    then show "\<not> fst (authenticateConnection env ws cookieHeader)"
      by (simp add: authenticateConnection_def cookie_header_def getSessionData_def)
  qed
  show ?thesis by (rule conjI[OF iff conjI[OF bwd conjI[OF rej err]]])
qed

theorem authenticateConnection_fail_closed_witness:
  "authenticateConnection example_env fresh_ws (Some ''theme=dark; connect.sid=s:abc.c2ln'')
       = (True, fresh_ws\<lparr>isAuthenticated := True, userId := Some ''alice'', sessionId := Some ''abc''\<rparr>)
   \<and> authenticateConnection example_env fresh_ws (Some ''connect.sid=s:err.sig'') = (False, fresh_ws)
   \<and> authenticateConnection example_env fresh_ws None = (False, fresh_ws)"
  using authenticateConnection_fail_closed [of example_env fresh_ws "Some ''theme=dark; connect.sid=s:abc.c2ln''"]
        authenticateConnection_fail_closed [of example_env fresh_ws "Some ''connect.sid=s:err.sig''"]
  by (simp add: authenticateConnection_def parse_abc parse_err decode_abc decode_err example_env_def
      alice_session_def getSessionData_def session_principal_def session_expired_def parse_empty)

section \<open>Properties of the client\<close>

lemma set_fold_set_add: "set (fold set_add xs acc) = set acc \<union> set xs"
  by (induction xs arbitrary: acc) (auto simp: set_add_def)

lemma distinct_fold_set_add: "distinct acc \<Longrightarrow> distinct (fold set_add xs acc)"
  by (induction xs arbitrary: acc) (auto simp: set_add_def)

lemma resubscribe_sent: "sent (resubscribe jobId c) = sent c @ [Subscribe jobId]"
  by (cases "client_send_throws c") (simp_all add: resubscribe_def client_send_def)

lemma fold_resubscribe_sent: "sent (fold resubscribe ids c) = sent c @ map Subscribe ids"
  by (induction ids arbitrary: c) (simp_all add: resubscribe_sent)

lemma subscription_ready_sent:
  "sent (subscription_ready c) =
     sent c @ map Subscribe (fold set_add (pendingSubscriptions c @ activeSubscriptions c) [])"
  by (simp add: subscription_ready_def Let_def fold_resubscribe_sent)

lemma onclose_sets:
  "activeSubscriptions (onclose code c) = []
   \<and> pendingSubscriptions (onclose code c) = fold set_add (activeSubscriptions c) (pendingSubscriptions c)
   \<and> sent (onclose code c) = sent c"
  by (simp add: onclose_def Let_def)

lemma reopen_keeps_sets:
  "pendingSubscriptions (onopen (reconnect_fires c)) = pendingSubscriptions c
   \<and> activeSubscriptions (onopen (reconnect_fires c)) = activeSubscriptions c
   \<and> sent (onopen (reconnect_fires c)) = sent c"
  by (simp add: onopen_def reconnect_fires_def connect_def)

text \<open>
  Claim C8. After \<open>onclose\<close> the active set is empty and the pending set holds what
  the two sets held. For a closure code other than 1000 and fewer than 5 attempts so
  far, the attempt counter goes up by one and a reconnect is scheduled after
  \<open>min (1000 * 2 ^ attempt) 30000\<close> ms, which gives 2000, 4000, 8000, 16000 and 30000
  for the attempts 1 to 5; with 5 attempts made, no reconnect is scheduled. When the
  settling delay ends, one subscribe request is sent for each job id of pending and
  active, and so, after a disconnect and a reconnect, one for each job id that was in
  either set before the disconnect.
\<close>

theorem onclose_backoff_and_resubscribe:
  "activeSubscriptions (onclose code c) = []
   \<and> set (pendingSubscriptions (onclose code c))
       = set (pendingSubscriptions c) \<union> set (activeSubscriptions c)
   \<and> (code \<noteq> 1000 \<and> reconnectAttempts c < 5 \<longrightarrow>
         reconnectAttempts (onclose code c) = reconnectAttempts c + 1
       \<and> reconnectTimeout (onclose code c) = Some (min (1000 * 2 ^ (reconnectAttempts c + 1)) 30000))
   \<and> (5 \<le> reconnectAttempts c \<longrightarrow>
         reconnectAttempts (onclose code c) = reconnectAttempts c
       \<and> reconnectTimeout (onclose code c) = reconnectTimeout c)
   \<and> map reconnect_delay [1, 2, 3, 4, 5] = [2000, 4000, 8000, 16000, 30000]
   \<and> (\<exists>ids. sent (subscription_ready c') = sent c' @ map Subscribe ids \<and> distinct ids
          \<and> set ids = set (pendingSubscriptions c') \<union> set (activeSubscriptions c'))
   \<and> (\<exists>ids. sent (subscription_ready (onopen (reconnect_fires (onclose code c))))
              = sent c @ map Subscribe ids \<and> distinct ids
          \<and> set ids = set (pendingSubscriptions c) \<union> set (activeSubscriptions c))"
proof -
  have a: "activeSubscriptions (onclose code c) = []" by (simp add: onclose_sets)
  have b: "set (pendingSubscriptions (onclose code c))
       = set (pendingSubscriptions c) \<union> set (activeSubscriptions c)"
    by (simp add: onclose_sets set_fold_set_add)
  have s: "code \<noteq> 1000 \<and> reconnectAttempts c < 5 \<longrightarrow>
         reconnectAttempts (onclose code c) = reconnectAttempts c + 1
       \<and> reconnectTimeout (onclose code c) = Some (min (1000 * 2 ^ (reconnectAttempts c + 1)) 30000)"
    by (simp add: onclose_def Let_def maxReconnectAttempts_def reconnect_delay_def)
  have g: "5 \<le> reconnectAttempts c \<longrightarrow>
         reconnectAttempts (onclose code c) = reconnectAttempts c
       \<and> reconnectTimeout (onclose code c) = reconnectTimeout c"
    by (simp add: onclose_def Let_def maxReconnectAttempts_def)
  have d: "map reconnect_delay [1, 2, 3, 4, 5] = [2000, 4000, 8000, 16000, 30000]"
    by (simp add: reconnect_delay_def)
  have r: "\<And>k. \<exists>ids. sent (subscription_ready k) = sent k @ map Subscribe ids \<and> distinct ids
          \<and> set ids = set (pendingSubscriptions k) \<union> set (activeSubscriptions k)"
  proof -
    fix k
    show "\<exists>ids. sent (subscription_ready k) = sent k @ map Subscribe ids \<and> distinct ids
          \<and> set ids = set (pendingSubscriptions k) \<union> set (activeSubscriptions k)"
      by (rule exI[of _ "fold set_add (pendingSubscriptions k @ activeSubscriptions k) []"])
         (simp add: subscription_ready_sent distinct_fold_set_add set_fold_set_add)
  qed
  from r[of "onopen (reconnect_fires (onclose code c))"] obtain ids where
    ids: "sent (subscription_ready (onopen (reconnect_fires (onclose code c))))
            = sent (onopen (reconnect_fires (onclose code c))) @ map Subscribe ids"
         "distinct ids"
         "set ids = set (pendingSubscriptions (onopen (reconnect_fires (onclose code c))))
                  \<union> set (activeSubscriptions (onopen (reconnect_fires (onclose code c))))"
    by (elim exE conjE)
  have "sent (subscription_ready (onopen (reconnect_fires (onclose code c)))) = sent c @ map Subscribe ids"
    using ids(1) by (simp add: reopen_keeps_sets onclose_sets)
  moreover have "set ids = set (pendingSubscriptions c) \<union> set (activeSubscriptions c)"
    using ids(3) by (simp add: reopen_keeps_sets a b)
  ultimately have e: "\<exists>ids. sent (subscription_ready (onopen (reconnect_fires (onclose code c))))
              = sent c @ map Subscribe ids \<and> distinct ids
          \<and> set ids = set (pendingSubscriptions c) \<union> set (activeSubscriptions c)"
    using ids(2) by (intro exI[of _ ids] conjI)
  show ?thesis by (intro conjI a b s g d r e)
qed

theorem onclose_backoff_and_resubscribe_witness:
  "activeSubscriptions (onclose 1006 watching_client) = []
   \<and> pendingSubscriptions (onclose 1006 watching_client) = [9, 7]
   \<and> reconnectTimeout (onclose 1006 watching_client) = Some 2000
   \<and> reconnectTimeout (onclose 1006 (watching_client\<lparr>reconnectAttempts := 5\<rparr>)) = None
   \<and> sent (subscription_ready (onopen (reconnect_fires (onclose 1006 watching_client))))
       = [Subscribe 9, Subscribe 7]"
  using onclose_backoff_and_resubscribe [of 1006 watching_client watching_client]
        onclose_backoff_and_resubscribe [of 1006 "watching_client\<lparr>reconnectAttempts := 5\<rparr>" watching_client]
  by (simp add: watching_client_def idle_client_def onclose_def maxReconnectAttempts_def
      reconnect_delay_def set_add_def subscription_ready_def onopen_def reconnect_fires_def
      connect_def resubscribe_def client_send_def)

text \<open>
  Claim C9, as stated, fails: \<open>subscribeToJob\<close> on a client whose socket is not ready
  puts the job id into the active set and into the pending set.
\<close>

theorem both_sets_counterexample:
  "pendingSubscriptions idle_client = [] \<and> activeSubscriptions idle_client = []
   \<and> 7 \<in> set (pendingSubscriptions (state_of (snd (subscribeToJob 7 idle_client))))
   \<and> 7 \<in> set (activeSubscriptions (state_of (snd (subscribeToJob 7 idle_client))))"
  by (simp add: idle_client_def subscribeToJob_def set_add_def)

lemma set_set_delete: "set (set_delete x xs) = set xs - {x}"
  by (simp add: set_delete_def)

lemma set_set_add': "set (set_add x xs) = insert x (set xs)"
  by (auto simp: set_add_def)

lemma client_send_sets:
  "pendingSubscriptions (state_of (client_send m c)) = pendingSubscriptions c
   \<and> activeSubscriptions (state_of (client_send m c)) = activeSubscriptions c"
  by (cases "client_send_throws c") (simp_all add: client_send_def)

lemma subscribeToJob_sets:
  "jobId \<in> set (activeSubscriptions (state_of (snd (subscribeToJob jobId c))))
   \<and> set (activeSubscriptions (state_of (snd (subscribeToJob jobId c))))
       = insert jobId (set (activeSubscriptions c))
   \<and> set (pendingSubscriptions c) - {jobId}
       \<subseteq> set (pendingSubscriptions (state_of (snd (subscribeToJob jobId c))))"
proof (cases "socket c \<and> ws_state c = OPEN \<and> connectionReady c \<and> connectionState c = Authenticated")
  case False
  then show ?thesis by (auto simp: subscribeToJob_def set_set_add')
next
  case True
  show ?thesis
  proof (cases "client_send_throws c")
    case None
    with True show ?thesis
      by (auto simp: subscribeToJob_def sendMessage_def client_send_def set_set_add' set_set_delete)
  next
    case (Some x)
    with True show ?thesis
      by (auto simp: subscribeToJob_def sendMessage_def client_send_def set_set_add')
  qed
qed

lemma unsubscribeFromJob_sets:
  "set (activeSubscriptions (state_of (unsubscribeFromJob jobId c))) = set (activeSubscriptions c) - {jobId}
   \<and> set (pendingSubscriptions (state_of (unsubscribeFromJob jobId c))) = set (pendingSubscriptions c) - {jobId}"
  by (cases "client_send_throws c")
     (simp_all add: unsubscribeFromJob_def sendMessage_def client_send_def Let_def set_set_delete)

lemma confirmation_sets:
  "jobId \<noteq> 0 \<Longrightarrow>
   set (activeSubscriptions (onmessage (Some (Subscribed jobId info)) c)) = insert jobId (set (activeSubscriptions c))
   \<and> set (pendingSubscriptions (onmessage (Some (Subscribed jobId info)) c)) = set (pendingSubscriptions c) - {jobId}"
  by (simp add: onmessage_def Let_def set_set_add' set_set_delete)

lemma subscribeToJob_queued:
  assumes "\<not> socket_ready c"
  shows "set (activeSubscriptions (state_of (snd (subscribeToJob jobId c)))) = insert jobId (set (activeSubscriptions c))
       \<and> set (pendingSubscriptions (state_of (snd (subscribeToJob jobId c)))) = insert jobId (set (pendingSubscriptions c))
       \<and> sent (state_of (snd (subscribeToJob jobId c))) = sent c"
  using assms by (auto simp: subscribeToJob_def socket_ready_def set_set_add')

lemma subscribeToJob_sent:
  assumes "socket_ready c" and "client_send_throws c = None"
  shows "set (activeSubscriptions (state_of (snd (subscribeToJob jobId c)))) = insert jobId (set (activeSubscriptions c))
       \<and> set (pendingSubscriptions (state_of (snd (subscribeToJob jobId c)))) = set (pendingSubscriptions c) - {jobId}
       \<and> sent (state_of (snd (subscribeToJob jobId c))) = sent c @ [Subscribe jobId]"
  using assms
  by (simp add: subscribeToJob_def socket_ready_def sendMessage_def client_send_def set_set_add' set_set_delete)

lemma subscribeToJob_throws:
  assumes "socket_ready c" and "client_send_throws c = Some x"
  shows "set (activeSubscriptions (state_of (snd (subscribeToJob jobId c)))) = insert jobId (set (activeSubscriptions c))
       \<and> pendingSubscriptions (state_of (snd (subscribeToJob jobId c))) = pendingSubscriptions c"
  using assms
  by (simp add: subscribeToJob_def socket_ready_def sendMessage_def client_send_def set_set_add')

lemma confirmation_zero:
  "onmessage (Some (Subscribed 0 info)) c = c\<lparr>lastMessage := Some (Subscribed 0 info)\<rparr>"
  by (simp add: onmessage_def)

lemma fold_resubscribe_sets:
  "client_send_throws c = None \<Longrightarrow>
     pendingSubscriptions (fold resubscribe ids c) = pendingSubscriptions c
   \<and> activeSubscriptions (fold resubscribe ids c) = activeSubscriptions c
   \<and> client_send_throws (fold resubscribe ids c) = None"
proof (induction ids arbitrary: c)
  case Nil
  then show ?case by simp
next
  case (Cons i ids)
  have step: "pendingSubscriptions (resubscribe i c) = pendingSubscriptions c
      \<and> activeSubscriptions (resubscribe i c) = activeSubscriptions c
      \<and> client_send_throws (resubscribe i c) = None"
    using Cons.prems by (simp add: resubscribe_def client_send_def)
  then have "client_send_throws (resubscribe i c) = None" by (elim conjE)
  from Cons.IH[OF this] show ?case using step by simp
qed

lemma flush_sets:
  assumes "client_send_throws c = None"
  shows "pendingSubscriptions (subscription_ready c) = []
       \<and> activeSubscriptions (subscription_ready c) = activeSubscriptions c"
proof -
  define c2 where "c2 = c\<lparr>subscriptionReadyTimeout := False, connectionReady := True,
                 connectionState := Authenticated, pendingSubscriptions := []\<rparr>"
  have t: "client_send_throws c2 = None" using assms by (simp add: c2_def)
  have r: "subscription_ready c
      = fold resubscribe (fold set_add (pendingSubscriptions c @ activeSubscriptions c) []) c2"
    by (simp add: subscription_ready_def c2_def Let_def)
  show ?thesis unfolding r
    using fold_resubscribe_sets[OF t, of "fold set_add (pendingSubscriptions c @ activeSubscriptions c) []"]
    by (simp add: c2_def)
qed

text \<open>
  Claim C9, amended. A job id can be in both sets, and in neither. \<open>subscribeToJob\<close>
  puts its job id into the active set; it also puts it into the pending set when the
  socket is not ready and the request is queued, takes it out of the pending set when
  the request is sent, and leaves the pending set alone when the send throws.
  \<open>unsubscribeFromJob\<close> takes its job id out of both sets. A confirmation for a job id
  other than \<open>0\<close> puts it into the active set and takes it out of the pending set; one
  for job id \<open>0\<close> changes neither set. \<open>onclose\<close> empties the active set and leaves
  in the pending set what the two sets held. No operation touches another job id. When
  the settling delay ends and the sends return, the pending set is emptied and the
  active set is left as it is, so an id that was only pending is in neither set until
  its confirmation arrives.
\<close>

theorem client_sets_per_operation:
  "set (activeSubscriptions (state_of (snd (subscribeToJob jobId c))))
      = insert jobId (set (activeSubscriptions c))
   \<and> (\<not> socket_ready c \<longrightarrow>
         set (pendingSubscriptions (state_of (snd (subscribeToJob jobId c))))
           = insert jobId (set (pendingSubscriptions c)))
   \<and> (socket_ready c \<and> client_send_throws c = None \<longrightarrow>
         set (pendingSubscriptions (state_of (snd (subscribeToJob jobId c))))
           = set (pendingSubscriptions c) - {jobId}
       \<and> sent (state_of (snd (subscribeToJob jobId c))) = sent c @ [Subscribe jobId])
   \<and> (socket_ready c \<and> client_send_throws c \<noteq> None \<longrightarrow>
         pendingSubscriptions (state_of (snd (subscribeToJob jobId c))) = pendingSubscriptions c)
   \<and> set (activeSubscriptions (state_of (unsubscribeFromJob jobId c)))
        = set (activeSubscriptions c) - {jobId}
   \<and> set (pendingSubscriptions (state_of (unsubscribeFromJob jobId c)))
        = set (pendingSubscriptions c) - {jobId}
   \<and> (jobId \<noteq> 0 \<longrightarrow>
         set (activeSubscriptions (onmessage (Some (Subscribed jobId info)) c))
           = insert jobId (set (activeSubscriptions c))
       \<and> set (pendingSubscriptions (onmessage (Some (Subscribed jobId info)) c))
           = set (pendingSubscriptions c) - {jobId})
   \<and> activeSubscriptions (onmessage (Some (Subscribed 0 info)) c) = activeSubscriptions c
   \<and> pendingSubscriptions (onmessage (Some (Subscribed 0 info)) c) = pendingSubscriptions c
   \<and> activeSubscriptions (onclose code c) = []
   \<and> set (pendingSubscriptions (onclose code c))
        = set (pendingSubscriptions c) \<union> set (activeSubscriptions c)
   \<and> (client_send_throws c = None \<longrightarrow>
         pendingSubscriptions (subscription_ready c) = []
       \<and> activeSubscriptions (subscription_ready c) = activeSubscriptions c)"
proof -
  have a: "set (activeSubscriptions (state_of (snd (subscribeToJob jobId c))))
      = insert jobId (set (activeSubscriptions c))"
    by (rule subscribeToJob_sets[THEN conjunct2, THEN conjunct1])
  have q: "\<not> socket_ready c \<longrightarrow>
         set (pendingSubscriptions (state_of (snd (subscribeToJob jobId c))))
           = insert jobId (set (pendingSubscriptions c))"
  proof
    assume h: "\<not> socket_ready c"
    show "set (pendingSubscriptions (state_of (snd (subscribeToJob jobId c))))
           = insert jobId (set (pendingSubscriptions c))"
      by (rule subscribeToJob_queued[OF h, THEN conjunct2, THEN conjunct1])
  qed
  have s: "socket_ready c \<and> client_send_throws c = None \<longrightarrow>
         set (pendingSubscriptions (state_of (snd (subscribeToJob jobId c))))
           = set (pendingSubscriptions c) - {jobId}
       \<and> sent (state_of (snd (subscribeToJob jobId c))) = sent c @ [Subscribe jobId]"
  proof
    assume h: "socket_ready c \<and> client_send_throws c = None"
    have h1: "socket_ready c" using h by (rule conjunct1)
    have h2: "client_send_throws c = None" using h by (rule conjunct2)
    show "set (pendingSubscriptions (state_of (snd (subscribeToJob jobId c))))
           = set (pendingSubscriptions c) - {jobId}
       \<and> sent (state_of (snd (subscribeToJob jobId c))) = sent c @ [Subscribe jobId]"
      by (rule subscribeToJob_sent[OF h1 h2, THEN conjunct2])
  qed
  have t: "socket_ready c \<and> client_send_throws c \<noteq> None \<longrightarrow>
         pendingSubscriptions (state_of (snd (subscribeToJob jobId c))) = pendingSubscriptions c"
  proof
    assume h: "socket_ready c \<and> client_send_throws c \<noteq> None"
    have h1: "socket_ready c" using h by (rule conjunct1)
    have "client_send_throws c \<noteq> None" using h by (rule conjunct2)
    then obtain x where h2: "client_send_throws c = Some x"
      by (cases "client_send_throws c") simp_all
    show "pendingSubscriptions (state_of (snd (subscribeToJob jobId c))) = pendingSubscriptions c"
      by (rule subscribeToJob_throws[OF h1 h2, THEN conjunct2])
  qed
  have u1: "set (activeSubscriptions (state_of (unsubscribeFromJob jobId c)))
        = set (activeSubscriptions c) - {jobId}"
    by (rule unsubscribeFromJob_sets[THEN conjunct1])
  have u2: "set (pendingSubscriptions (state_of (unsubscribeFromJob jobId c)))
        = set (pendingSubscriptions c) - {jobId}"
    by (rule unsubscribeFromJob_sets[THEN conjunct2])
  have m: "jobId \<noteq> 0 \<longrightarrow>
         set (activeSubscriptions (onmessage (Some (Subscribed jobId info)) c))
           = insert jobId (set (activeSubscriptions c))
       \<and> set (pendingSubscriptions (onmessage (Some (Subscribed jobId info)) c))
           = set (pendingSubscriptions c) - {jobId}"
    by (intro impI) (rule confirmation_sets)
  have z1: "activeSubscriptions (onmessage (Some (Subscribed 0 info)) c) = activeSubscriptions c"
    by (simp add: confirmation_zero)
  have z2: "pendingSubscriptions (onmessage (Some (Subscribed 0 info)) c) = pendingSubscriptions c"
    by (simp add: confirmation_zero)
  have d1: "activeSubscriptions (onclose code c) = []" by (simp add: onclose_sets)
  have d2: "set (pendingSubscriptions (onclose code c))
        = set (pendingSubscriptions c) \<union> set (activeSubscriptions c)"
    by (simp add: onclose_sets set_fold_set_add)
  have f: "client_send_throws c = None \<longrightarrow>
         pendingSubscriptions (subscription_ready c) = []
       \<and> activeSubscriptions (subscription_ready c) = activeSubscriptions c"
    by (intro impI) (rule flush_sets)
  show ?thesis
    by (rule conjI[OF a conjI[OF q conjI[OF s conjI[OF t conjI[OF u1 conjI[OF u2
          conjI[OF m conjI[OF z1 conjI[OF z2 conjI[OF d1 conjI[OF d2 f]]]]]]]]]]])
qed

theorem client_sets_per_operation_witness:
  "set (pendingSubscriptions (state_of (snd (subscribeToJob 7 idle_client)))) = {7}
   \<and> set (activeSubscriptions (state_of (snd (subscribeToJob 7 idle_client)))) = {7}
   \<and> pendingSubscriptions (subscription_ready lost_client) = []
   \<and> activeSubscriptions (subscription_ready lost_client) = []"
proof -
  note idle = client_sets_per_operation [of 7 idle_client "''ok''" 1006]
  note lost = client_sets_per_operation [of 7 lost_client "''ok''" 1006]
  have nr: "\<not> socket_ready idle_client"
    by (simp add: socket_ready_def idle_client_def)
  have ok: "client_send_throws lost_client = None"
    by (simp add: lost_client_def idle_client_def)
  have a: "set (activeSubscriptions (state_of (snd (subscribeToJob 7 idle_client))))
             = insert 7 (set (activeSubscriptions idle_client))"
    by (rule idle[THEN conjunct1])
  have p: "set (pendingSubscriptions (state_of (snd (subscribeToJob 7 idle_client))))
             = insert 7 (set (pendingSubscriptions idle_client))"
    by (rule idle[THEN conjunct2, THEN conjunct1, rule_format, OF nr])
  have f: "pendingSubscriptions (subscription_ready lost_client) = []
         \<and> activeSubscriptions (subscription_ready lost_client) = activeSubscriptions lost_client"
    by (rule lost[THEN conjunct2, THEN conjunct2, THEN conjunct2, THEN conjunct2, THEN conjunct2,
                  THEN conjunct2, THEN conjunct2, THEN conjunct2, THEN conjunct2, THEN conjunct2,
                  THEN conjunct2, rule_format, OF ok])
  have e: "activeSubscriptions idle_client = [] \<and> pendingSubscriptions idle_client = []
         \<and> activeSubscriptions lost_client = []"
    by (simp add: idle_client_def lost_client_def)
  show ?thesis using a p f e by simp
qed

end
